theory Spec2Isabelle
  imports Main "HOL-Library.Code_Target_Nat"
begin

section \<open>JavaScript strings and regular expressions\<close>

text \<open>
  A JavaScript string is a sequence of UTF-16 code units; the glyphs of the status bar
  lie outside ASCII, so a code unit is a natural number here. \<open>str\<close> embeds an ASCII
  literal.
\<close>

type_synonym jsstring = "nat list"

definition str :: "string \<Rightarrow> jsstring" where
  "str s = map of_char s"

definition is_ascii :: "jsstring \<Rightarrow> bool" where
  "is_ascii s = list_all (\<lambda>c. c < 128) s"

text \<open>
  What the engine computes from tables that are not part of the sources is a parameter:
  the case conversions of a string that has a code unit outside ASCII, and the text
  \<open>Number::toString\<close> prints for an integer beyond the safe integers (the shortest
  digits that identify the double, in exponent form from \<open>10^21\<close>).
\<close>

record engine =
  upper_unicode :: "jsstring \<Rightarrow> jsstring"
  lower_unicode :: "jsstring \<Rightarrow> jsstring"
  toString_unsafe :: "int \<Rightarrow> jsstring"

definition ascii_upper :: "nat \<Rightarrow> nat" where
  "ascii_upper c = (if 97 \<le> c \<and> c \<le> 122 then c - 32 else c)"

definition ascii_lower :: "nat \<Rightarrow> nat" where
  "ascii_lower c = (if 65 \<le> c \<and> c \<le> 90 then c + 32 else c)"

text \<open>
  \<open>String.prototype.toUpperCase\<close> and \<open>toLowerCase\<close>: on an ASCII string the letters are
  mapped and everything else is kept; otherwise the result is the engine's.
\<close>

definition toUpperCase :: "engine \<Rightarrow> jsstring \<Rightarrow> jsstring" where
  "toUpperCase e s = (if is_ascii s then map ascii_upper s else upper_unicode e s)"

definition toLowerCase :: "engine \<Rightarrow> jsstring \<Rightarrow> jsstring" where
  "toLowerCase e s = (if is_ascii s then map ascii_lower s else lower_unicode e s)"

text \<open>
  \<open>String.prototype.slice(start, end)\<close>: a negative index counts from the end, both
  indices are clamped to the string, and an empty range gives the empty string.
\<close>

definition slice_index :: "nat \<Rightarrow> int \<Rightarrow> nat" where
  "slice_index len i = (if i < 0 then nat (max (int len + i) 0) else min (nat i) len)"

definition slice :: "jsstring \<Rightarrow> int \<Rightarrow> int \<Rightarrow> jsstring" where
  "slice s start stop =
     (let from = slice_index (length s) start; to = slice_index (length s) stop
      in take (to - from) (drop from s))"

text \<open>
  A regular expression is represented by its matcher: \<open>re s i\<close> is the length of the
  match of the pattern in \<open>s\<close> that begins exactly at index \<open>i\<close>, if there is one.
  \<open>regexp_exec\<close> is \<open>RegExp.prototype.exec\<close> of a regular expression with the \<open>g\<close> flag:
  it tries the indices from \<open>lastIndex\<close> up to the length of the string, and on success
  returns the index and length of the match; the new \<open>lastIndex\<close> is the end of the
  match, which for an empty match is the index where it began.
\<close>

type_synonym matcher = "jsstring \<Rightarrow> nat \<Rightarrow> nat option"

fun first_match :: "matcher \<Rightarrow> jsstring \<Rightarrow> nat list \<Rightarrow> (nat \<times> nat) option" where
  "first_match re s [] = None"
| "first_match re s (i # is) =
     (case re s i of Some n \<Rightarrow> Some (i, n) | None \<Rightarrow> first_match re s is)"

definition regexp_exec :: "matcher \<Rightarrow> jsstring \<Rightarrow> nat \<Rightarrow> (nat \<times> nat) option" where
  "regexp_exec re s lastIndex = first_match re s [lastIndex ..< Suc (length s)]"

text \<open>
  \<open>String.prototype.replace\<close> with a global regular expression and a replacement
  without \<open>$\<close> patterns: the matches are collected by repeated \<open>exec\<close> from
  \<open>lastIndex = 0\<close>, where after an empty match \<open>lastIndex\<close> is advanced by one; each
  match at or after the end of the previous one is replaced. The candidates are the
  indices \<open>0 .. length s\<close> in order; those below \<open>lastIndex\<close> are passed over.
\<close>

fun replace_scan ::
  "matcher \<Rightarrow> jsstring \<Rightarrow> jsstring \<Rightarrow> nat list \<Rightarrow> nat \<Rightarrow> nat \<Rightarrow> jsstring" where
  "replace_scan re rep s [] lastIndex nextSourcePosition = drop nextSourcePosition s"
| "replace_scan re rep s (i # is) lastIndex nextSourcePosition =
     (if i < lastIndex then replace_scan re rep s is lastIndex nextSourcePosition
      else case re s i of
        None \<Rightarrow> replace_scan re rep s is lastIndex nextSourcePosition
      | Some n \<Rightarrow>
          (if nextSourcePosition \<le> i
           then take (i - nextSourcePosition) (drop nextSourcePosition s) @ rep @
                replace_scan re rep s is (if n = 0 then Suc i else i + n) (i + n)
           else replace_scan re rep s is (if n = 0 then Suc i else i + n)
                  nextSourcePosition))"

definition js_replace :: "matcher \<Rightarrow> jsstring \<Rightarrow> jsstring \<Rightarrow> jsstring" where
  "js_replace re rep s = replace_scan re rep s [0 ..< Suc (length s)] 0 0"

text \<open>
  The matchers of the patterns the sources use. \<open>token_re (str tok) True\<close> is
  \<open>/tok(\+|$)/gi\<close> and \<open>token_re (str tok) False\<close> is \<open>/tok/gi\<close>, for an ASCII word \<open>tok\<close>.
  With the flag \<open>i\<close> and without the flag \<open>u\<close> two code units match when they
  canonicalize to the same unit; an ASCII letter canonicalizes to its upper case, and a
  unit outside ASCII never canonicalizes to an ASCII unit, so for an ASCII word it is
  enough to keep such a unit as it is. Without the flag \<open>m\<close>, \<open>$\<close> is the end of the
  string.
\<close>

definition canonicalize :: "nat \<Rightarrow> nat" where
  "canonicalize c = (if c < 128 then ascii_upper c else c)"

definition token_re :: "jsstring \<Rightarrow> bool \<Rightarrow> matcher" where
  "token_re tok follow s i =
     (let n = length tok in
      if map canonicalize (take n (drop i s)) = map canonicalize tok
      then (if \<not> follow then Some n
            else if i + n < length s \<and> s ! (i + n) = 43 then Some (Suc n)
            else if i + n = length s then Some n
            else None)
      else None)"

definition isLineTerminator :: "nat \<Rightarrow> bool" where
  "isLineTerminator c = (c = 10 \<or> c = 13 \<or> c = 8232 \<or> c = 8233)"

definition isWhiteSpace :: "nat \<Rightarrow> bool" where
  "isWhiteSpace c =
     (c = 9 \<or> c = 10 \<or> c = 11 \<or> c = 12 \<or> c = 13 \<or> c = 32 \<or> c = 160 \<or> c = 5760
      \<or> (8192 \<le> c \<and> c \<le> 8202) \<or> c = 8232 \<or> c = 8233 \<or> c = 8239 \<or> c = 8287
      \<or> c = 12288 \<or> c = 65279)"

definition atLineStart :: "jsstring \<Rightarrow> nat \<Rightarrow> bool" where
  "atLineStart s i = (i = 0 \<or> (i \<le> length s \<and> isLineTerminator (s ! (i - 1))))"

text \<open>\<open>/^/mg\<close>: the empty match at the start of every line.\<close>

definition line_start_re :: matcher where
  "line_start_re s i = (if atLineStart s i then Some 0 else None)"

text \<open>
  \<open>/^\s*(?=\S+)/mg\<close>: at the start of a line, the longest run of white space, provided
  a character that is not white space follows it.
\<close>

definition indent_re :: matcher where
  "indent_re s i =
     (let n = length (takeWhile isWhiteSpace (drop i s)) in
      if atLineStart s i \<and> i + n < length s then Some n else None)"

section \<open>JavaScript numbers\<close>

text \<open>
  The numbers of this development are integer-valued doubles and the two infinities.
  The arithmetic of the engine computes the exact result and rounds it to the nearest
  double, a tie going to the even significand of 53 bits; a result of magnitude
  \<open>2^1024\<close> or more after rounding is infinite. Below \<open>2^53\<close> every integer is a double.
\<close>

datatype jsnumber = Finite int | PosInfinity | NegInfinity

definition MIN_SAFE_INTEGER :: int where
  "MIN_SAFE_INTEGER = - (2 ^ 53 - 1)"

definition MAX_SAFE_INTEGER :: int where
  "MAX_SAFE_INTEGER = 2 ^ 53 - 1"

text \<open>The number of low bits that a magnitude \<open>a\<close> has beyond a significand of 53 bits.\<close>

function excess_bits :: "int \<Rightarrow> nat" where
  "excess_bits a = (if a < 2 ^ 53 then 0 else Suc (excess_bits (a div 2)))"
  by pat_completeness auto
termination
  by (relation "measure nat") auto

declare excess_bits.simps [simp del]

definition round_magnitude :: "int \<Rightarrow> int" where
  "round_magnitude a =
     (let k = excess_bits a; q = a div 2 ^ k; r = a mod 2 ^ k
      in if k = 0 then a
         else if 2 * r > 2 ^ k \<or> (2 * r = 2 ^ k \<and> odd q) then (q + 1) * 2 ^ k
         else q * 2 ^ k)"

definition to_double :: "int \<Rightarrow> jsnumber" where
  "to_double x =
     (let y = round_magnitude \<bar>x\<bar>
      in if 2 ^ 1024 \<le> y then (if x < 0 then NegInfinity else PosInfinity)
         else Finite (if x < 0 then - y else y))"

text \<open>\<open>x * 10\<close> and \<open>x + k\<close> for a finite integer \<open>k\<close>.\<close>

fun times_10 :: "jsnumber \<Rightarrow> jsnumber" where
  "times_10 (Finite a) = to_double (a * 10)"
| "times_10 PosInfinity = PosInfinity"
| "times_10 NegInfinity = NegInfinity"

fun plus_int :: "jsnumber \<Rightarrow> int \<Rightarrow> jsnumber" where
  "plus_int (Finite a) k = to_double (a + k)"
| "plus_int PosInfinity k = PosInfinity"
| "plus_int NegInfinity k = NegInfinity"

text \<open>A number as a condition: zero is false.\<close>

fun truthy :: "jsnumber \<Rightarrow> bool" where
  "truthy (Finite a) = (a \<noteq> 0)"
| "truthy PosInfinity = True"
| "truthy NegInfinity = True"

text \<open>
  The text of a number (\<open>count + "..."\<close>): for a safe integer its decimal numeral, for the
  infinities their names, otherwise the engine's.
\<close>

fun digits :: "nat \<Rightarrow> jsstring" where
  "digits n = (if n < 10 then [48 + n] else digits (n div 10) @ [48 + n mod 10])"

declare digits.simps [simp del]

fun number_toString :: "engine \<Rightarrow> jsnumber \<Rightarrow> jsstring" where
  "number_toString e (Finite n) =
     (if MIN_SAFE_INTEGER \<le> n \<and> n \<le> MAX_SAFE_INTEGER
      then (if n < 0 then 45 # digits (nat (- n)) else digits (nat n))
      else toString_unsafe e n)"
| "number_toString e PosInfinity = str ''Infinity''"
| "number_toString e NegInfinity = str ''-Infinity''"

section \<open>The status projection\<close>

text \<open>
  \<open>prettifyPrefix\<close> of the utilities of the UI tests: upper case, then one global
  replacement per key name.
\<close>

definition prettifyPrefix :: "engine \<Rightarrow> jsstring \<Rightarrow> jsstring" where
  "prettifyPrefix e s0 =
     (let s1 = toUpperCase e s0;
          s2 = js_replace (token_re (str ''shift'') True) [8679] s1;
          s3 = js_replace (token_re (str ''ctrl'') True) [94] s2;
          s4 = js_replace (token_re (str ''alt'') True) [8997] s3;
          s5 = js_replace (token_re (str ''meta'') True) [9670] s4;
          s6 = js_replace (token_re (str ''win'') True) [8862] s5;
          s7 = js_replace (token_re (str ''cmd'') True) [8984] s6
      in js_replace (token_re (str ''escape'') False) (str ''ESC'') s7)"

text \<open>
  The values map handed to the listeners, read at the keys \<open>COUNT\<close> and \<open>PREFIX\<close>;
  an entry may be absent.
\<close>

record values_map =
  COUNT :: "jsnumber option"
  PREFIX :: "jsstring option"

definition get_or :: "'a option \<Rightarrow> 'a \<Rightarrow> 'a" where
  "get_or entry notSetValue = (case entry of None \<Rightarrow> notSetValue | Some v \<Rightarrow> v)"

text \<open>
  The string \<open>plannedUpdate\<close> that \<open>updateKeyStatus\<close> computes (lines 16 to 18). The
  status bar imports \<open>prettifyPrefix\<close> from the module \<open>utils\<close>, which is not among the
  sources: that function is the parameter \<open>prettify\<close>.
\<close>

definition plannedUpdate_of :: "(jsstring \<Rightarrow> jsstring) \<Rightarrow> engine \<Rightarrow> values_map \<Rightarrow> jsstring" where
  "plannedUpdate_of prettify e values =
     (let count = get_or (COUNT values) (Finite 0);
          plannedUpdate = (if truthy count then number_toString e count @ [215, 32] else [])
      in plannedUpdate @ prettify (get_or (PREFIX values) []))"

section \<open>The key status bar\<close>

text \<open>
  The module state of the status-bar file: the status item (its text and the label of
  its accessibility information), the effective \<open>keyDisplayDelay\<close>, the counter
  \<open>statusUpdates\<close>, and the callbacks handed to \<open>setTimeout\<close> that have not fired yet,
  each with the variables it captured. \<open>configReads\<close> counts the calls of
  \<open>getConfiguration\<close>. The flag \<open>testing\<close> stands for \<open>process.env.TESTING\<close>.
\<close>

record StatusBarItem =
  bar_text :: jsstring
  bar_label :: jsstring

record timer =
  currentUpdate :: int
  plannedUpdate :: jsstring
  delay :: int

record state =
  keyStatusBar :: "StatusBarItem option"
  keyDisplayDelay :: int
  statusUpdates :: int
  timers :: "timer list"
  configReads :: nat

definition KEY_DISPLAY_DELAY_DEFAULT :: "bool \<Rightarrow> int" where
  "KEY_DISPLAY_DELAY_DEFAULT testing = (if testing then 100 else 500)"

definition module_init :: "bool \<Rightarrow> state" where
  "module_init testing =
     \<lparr>keyStatusBar = None, keyDisplayDelay = KEY_DISPLAY_DELAY_DEFAULT testing,
      statusUpdates = MIN_SAFE_INTEGER, timers = [], configReads = 0\<rparr>"

text \<open>
  \<open>updateKeyStatus\<close>: a non-empty update is written at once; an empty one schedules the
  clearing callback, which captures \<open>statusUpdates\<close> and \<open>plannedUpdate\<close>. The function
  returns \<open>true\<close> on every path. Its argument is a \<open>Map\<close> of the library \<open>immutable\<close>
  that the caller shares, and the function calls nothing but \<open>get\<close> on it; the result
  carries, with the returned value, the values map as it is after the call and the
  module state.
\<close>

definition updateKeyStatus ::
  "(jsstring \<Rightarrow> jsstring) \<Rightarrow> engine \<Rightarrow> values_map \<Rightarrow> state \<Rightarrow> bool \<times> values_map \<times> state" where
  "updateKeyStatus prettify e values s =
     (case keyStatusBar s of
        Some bar \<Rightarrow>
          if keyDisplayDelay s > 0 then
            (let planned = plannedUpdate_of prettify e values in
             if length planned > 0
             then (True, values, s\<lparr>keyStatusBar :=
                      Some \<lparr>bar_text = planned,
                            bar_label = str ''Keys Typed: '' @ planned\<rparr>\<rparr>)
             else (True, values, s\<lparr>timers := timers s @
                      [\<lparr>currentUpdate = statusUpdates s, plannedUpdate = planned,
                        delay = keyDisplayDelay s\<rparr>]\<rparr>))
          else (True, values, s)
      | None \<Rightarrow> (True, values, s))"

text \<open>The body of the callback given to \<open>setTimeout\<close> (lines 25 to 38).\<close>

definition clear_callback :: "timer \<Rightarrow> state \<Rightarrow> state" where
  "clear_callback t s =
     (if currentUpdate t = statusUpdates s then
        (let s1 = s\<lparr>statusUpdates :=
                     (if statusUpdates s < MAX_SAFE_INTEGER then statusUpdates s + 1
                      else MIN_SAFE_INTEGER)\<rparr>
         in case keyStatusBar s1 of
              Some bar \<Rightarrow> s1\<lparr>keyStatusBar :=
                  Some \<lparr>bar_text = plannedUpdate t, bar_label = str ''No Keys Typed''\<rparr>\<rparr>
            | None \<Rightarrow> s1)
      else s)"

text \<open>
  \<open>updateConfig\<close>: \<open>event\<close> is the optional change event, given by its
  \<open>affectsConfiguration\<close>; \<open>stored\<close> is what the configuration store holds for
  \<open>keyDisplayDelay\<close> in the section \<open>master-key\<close> (absent when unset). The operator
  \<open>||\<close> takes the default for \<open>undefined\<close> and for \<open>0\<close>.
\<close>

definition updateConfig ::
  "bool \<Rightarrow> (string \<Rightarrow> bool) option \<Rightarrow> int option \<Rightarrow> state \<Rightarrow> state" where
  "updateConfig testing event stored s =
     (if (event = None \<and> \<not> testing)
         \<or> (case event of None \<Rightarrow> False | Some affects \<Rightarrow> affects ''master-key'')
      then s\<lparr>keyDisplayDelay :=
               (case stored of
                  None \<Rightarrow> KEY_DISPLAY_DELAY_DEFAULT testing
                | Some v \<Rightarrow> if v \<noteq> 0 then v else KEY_DISPLAY_DELAY_DEFAULT testing),
             configReads := Suc (configReads s)\<rparr>
      else s)"

text \<open>
  \<open>activate\<close>: the startup read of the configuration, then the status item is created
  (with empty text) and labelled.
\<close>

definition activate :: "bool \<Rightarrow> int option \<Rightarrow> state" where
  "activate testing stored =
     (updateConfig testing None stored (module_init testing))
       \<lparr>keyStatusBar := Some \<lparr>bar_text = [], bar_label = str ''No Keys Typed''\<rparr>\<rparr>"

text \<open>
  After activation the module reacts to three kinds of event, one at a time: a key state
  value was set (the listener \<open>updateKeyStatus\<close> runs on the values), the configuration
  changed (with the store's content at that moment), and a pending timer fires
  (\<open>TimerFires i\<close> is the \<open>i\<close>-th callback still pending; it leaves the queue).
\<close>

datatype event =
  ValuesSet values_map
| ConfigurationChanged "string \<Rightarrow> bool" "int option"
| TimerFires nat

fun step :: "(jsstring \<Rightarrow> jsstring) \<Rightarrow> engine \<Rightarrow> bool \<Rightarrow> state \<Rightarrow> event \<Rightarrow> state" where
  "step prettify e testing s (ValuesSet values) =
     snd (snd (updateKeyStatus prettify e values s))"
| "step prettify e testing s (ConfigurationChanged affects stored) =
     updateConfig testing (Some affects) stored s"
| "step prettify e testing s (TimerFires i) =
     (if i < length (timers s)
      then clear_callback (timers s ! i) (s\<lparr>timers := take i (timers s) @ drop (Suc i) (timers s)\<rparr>)
      else s)"

definition run ::
  "(jsstring \<Rightarrow> jsstring) \<Rightarrow> engine \<Rightarrow> bool \<Rightarrow> state \<Rightarrow> event list \<Rightarrow> state" where
  "run prettify e testing s evs = foldl (step prettify e testing) s evs"

section \<open>Keybinding generation\<close>

text \<open>
  \<open>replaceAll\<close>: the loop calls \<open>regex.exec\<close> until it returns \<open>null\<close>. Nothing in the
  loop moves \<open>lastIndex\<close> past an empty match, so the loop need not end: the function is
  partial, and \<open>None\<close> is the run that never returns normally (an engine with bounded
  strings ends it when \<open>result\<close> has outgrown the limit). The regular expression object
  carries its flags, its matcher and its \<open>lastIndex\<close>.
\<close>

datatype error = MissingGlobalFlag | IllegalLine

record regexp =
  flags :: string
  pattern :: matcher
  lastIndex :: nat

partial_function (option) replaceAll_loop ::
  "matcher \<Rightarrow> jsstring \<Rightarrow> jsstring \<Rightarrow> jsstring \<Rightarrow> nat \<Rightarrow> nat \<Rightarrow> jsstring option" where
  "replaceAll_loop re s replacement result offset li =
     (case regexp_exec re s li of
        None \<Rightarrow> Some (result @ slice s (int offset) (- 1))
      | Some (index, n) \<Rightarrow>
          replaceAll_loop re s replacement
            (result @ slice s (int offset) (int index) @ replacement) (offset + n) (index + n))"

declare replaceAll_loop.simps [code]

definition replaceAll :: "jsstring \<Rightarrow> regexp \<Rightarrow> jsstring \<Rightarrow> (error + jsstring) option" where
  "replaceAll s regex replacement =
     (if CHR ''g'' \<notin> set (flags regex) then Some (Inl MissingGlobalFlag)
      else map_option Inr
             (replaceAll_loop (pattern regex) s replacement [] 0 (lastIndex regex)))"

definition AUTOMATED_COMMENT_START_PREFIX :: jsstring where
  "AUTOMATED_COMMENT_START_PREFIX = str
      (''\<newline>'' @
       ''    // AUTOMATED BINDINGS START: ModalKey Bindings \<newline>'' @
       ''    //\<newline>'' @
       ''    // These bindings were automatically inserted by the ModalKeys extension from the\<newline>'' @
       ''    // following file: \<newline>'' @
       ''    //\<newline>'')"

definition AUTOMATED_COMMENT_START_SUFFIX :: jsstring where
  "AUTOMATED_COMMENT_START_SUFFIX = str
      (''\<newline>'' @
       ''    //\<newline>'' @
       ''    // Leave this comment (and the one denoting the end) unmodified to ensure the automated\<newline>'' @
       ''    // bindings are properly updated if/when you insert another preset. Add any additional\<newline>'' @
       ''    // bindings you want *outside* of the automated bindings region as it will be modified\<newline>'' @
       ''    // when new presets are imported.\<newline>'')"

definition AUTOMATED_COMMENT_END :: jsstring where
  "AUTOMATED_COMMENT_END = str
      (''\<newline>'' @
       ''    // AUTOMATED BINDINGS END: ModalKey Bindings\<newline>'' @
       ''\<newline>'' @
       ''    // Leave this comment (and the one denoting the start) unmodified to ensure the\<newline>'' @
       ''    // automated bindings are properly updated if/when you insert another preset\<newline>'')"

definition MSG_NO_BRACKET :: jsstring where
  "MSG_NO_BRACKET = str
      (''Could not find opening `[` at top of keybindings file. Your keybinding file does not appear to be proplery formatted.'')"

definition MSG_UPDATED :: jsstring where
  "MSG_UPDATED = str
      (''Your modal key bindings have\<newline>'' @
       ''                    been updated in `keybindings.json`.'')"

definition MSG_ALTERED :: jsstring where
  "MSG_ALTERED = str
      (''You appear to have altered the comments\<newline>'' @
       ''                    around the automated bindings. Please delete the old, automated\<newline>'' @
       ''                    bindings manually and then re-run this command.'')"

definition MSG_INSERTED :: jsstring where
  "MSG_INSERTED = str
      (''Your modal key bindings have\<newline>'' @
       ''                    been inserted into `keybindings.json`.'')"

text \<open>
  A binding item as \<open>formatBindings\<close> reads it: its optional name and description, and
  \<open>picked\<close>, the text that \<open>JSON.stringify(pick(item, ['key', 'when', 'command',
  'args']), null, 4)\<close> prints for it (the JSON printer is a library function).
\<close>

record BindingItem =
  name :: "jsstring option"
  description :: "jsstring option"
  picked :: jsstring

definition item_comment :: "BindingItem \<Rightarrow> jsstring" where
  "item_comment item =
     (case (name item, description item) of
        (Some n, Some d) \<Rightarrow> n @ str '': '' @ d
      | (Some n, None) \<Rightarrow> n
      | (None, Some d) \<Rightarrow> d
      | (None, None) \<Rightarrow> [])"

text \<open>The loop of \<open>formatBindings\<close> over the items; each regular expression literal is a
  fresh object, with \<open>lastIndex = 0\<close>.\<close>

fun formatItems :: "BindingItem list \<Rightarrow> jsstring \<Rightarrow> (error + jsstring) option" where
  "formatItems [] json = Some (Inr json)"
| "formatItems (item # items) json =
     (case replaceAll (item_comment item)
             \<lparr>flags = ''gm'', pattern = indent_re, lastIndex = 0\<rparr> (str ''    // '') of
        None \<Rightarrow> None
      | Some (Inl e) \<Rightarrow> Some (Inl e)
      | Some (Inr c) \<Rightarrow>
          (case replaceAll (picked item)
                  \<lparr>flags = ''gm'', pattern = line_start_re, lastIndex = 0\<rparr> (str ''    '') of
             None \<Rightarrow> None
           | Some (Inl e) \<Rightarrow> Some (Inl e)
           | Some (Inr j) \<Rightarrow>
               formatItems items (json @ c @ [10] @ j @ str '',\<newline>\<newline>'')))"

definition formatBindings :: "jsstring \<Rightarrow> BindingItem list \<Rightarrow> (error + jsstring) option" where
  "formatBindings file items =
     (case formatItems items [] of
        None \<Rightarrow> None
      | Some (Inl e) \<Rightarrow> Some (Inl e)
      | Some (Inr json) \<Rightarrow>
          Some (Inr (AUTOMATED_COMMENT_START_PREFIX @ str ''    // `'' @ file @ str ''`'' @
                     AUTOMATED_COMMENT_START_SUFFIX @ [10] @ json @ AUTOMATED_COMMENT_END)))"

text \<open>
  The editor as \<open>insertKeybindingsIntoConfig\<close> uses it. \<open>searchMatches\<close> (of the module
  \<open>searching\<close>) is given by the ranges it yields for a text, searched from the top of the
  document; \<open>doc_lines\<close> are the lines of the document. What the function asks of the
  editor and the window is recorded as a list of effects, with the way the call ended.
\<close>

record position =
  line :: int
  character :: int

record range =
  range_start :: position
  range_end :: position

record editor =
  searchMatches :: "jsstring \<Rightarrow> range list"
  doc_lines :: "jsstring list"

datatype effect =
  ExecuteCommand jsstring
| ShowErrorMessage jsstring
| ShowInformationMessage jsstring
| EditReplace range jsstring
| EditInsert position jsstring

datatype outcome = Returned | Threw error | NeverReturns

definition findText :: "editor \<Rightarrow> jsstring \<Rightarrow> range option" where
  "findText ed text_sought =
     (case searchMatches ed text_sought of [] \<Rightarrow> None | firstMatch # _ \<Rightarrow> Some firstMatch)"

text \<open>\<open>lineAt\<close> throws for a line outside the document.\<close>

definition lineAt_end :: "editor \<Rightarrow> int \<Rightarrow> error + int" where
  "lineAt_end ed l =
     (if l < 0 \<or> int (length (doc_lines ed)) \<le> l then Inl IllegalLine
      else Inr (int (length (doc_lines ed ! nat l))))"

definition insertKeybindingsIntoConfig ::
  "jsstring \<Rightarrow> BindingItem list \<Rightarrow> editor option \<Rightarrow> effect list \<times> outcome" where
  "insertKeybindingsIntoConfig file config activeTextEditor =
     (let opened = [ExecuteCommand (str ''workbench.action.openGlobalKeybindingsFile'')] in
      case activeTextEditor of
        None \<Rightarrow> (opened, Returned)
      | Some ed \<Rightarrow>
          (case findText ed (str ''['') of
             None \<Rightarrow> (opened @ [ShowErrorMessage MSG_NO_BRACKET], Returned)
           | Some bracket \<Rightarrow>
               (let insertAt = range_end bracket in
                case formatBindings file config of
                  None \<Rightarrow> (opened, NeverReturns)
                | Some (Inl e) \<Rightarrow> (opened, Threw e)
                | Some (Inr bindingsToInsert) \<Rightarrow>
                    (case (findText ed (str ''AUTOMATED BINDINGS START''),
                           findText ed (str ''AUTOMATED BINDINGS END'')) of
                       (Some oldBindingsStart, Some oldBindingsEnd) \<Rightarrow>
                         (case lineAt_end ed (line (range_start oldBindingsStart) - 1) of
                            Inl e \<Rightarrow> (opened, Threw e)
                          | Inr endCharacter \<Rightarrow>
                              (opened @
                               [EditReplace
                                  \<lparr>range_start =
                                     \<lparr>line = line (range_start oldBindingsStart) - 1,
                                      character = endCharacter\<rparr>,
                                   range_end =
                                     \<lparr>line = line (range_end oldBindingsEnd) + 4,
                                      character = 0\<rparr>\<rparr>
                                  bindingsToInsert,
                                ShowInformationMessage MSG_UPDATED], Returned))
                     | (None, None) \<Rightarrow>
                         (opened @
                          [EditInsert insertAt ([10] @ bindingsToInsert),
                           ShowInformationMessage MSG_INSERTED], Returned)
                     | _ \<Rightarrow> (opened @ [ShowErrorMessage MSG_ALTERED], Returned)))))"

fun is_edit :: "effect \<Rightarrow> bool" where
  "is_edit (EditReplace r t) = True"
| "is_edit (EditInsert p t) = True"
| "is_edit e = False"

fun is_error_report :: "effect \<Rightarrow> bool" where
  "is_error_report (ShowErrorMessage m) = True"
| "is_error_report e = False"

section \<open>Importing a preset\<close>

text \<open>
  \<open>importBindings\<close>. The file dialog, \<open>parseBindingFile\<close>, \<open>processBindings\<close> and the
  reading of \<open>define.validModes\<close> belong to modules that are not among the sources; they
  are parameters. What the function asks of its collaborators is recorded in order: a
  call of \<open>showParseError\<close>, the call of \<open>insertKeybindingsIntoConfig\<close> (started and not
  awaited), and the update of the configuration.
\<close>

datatype ('data, 'issue) SafeParseReturn =
  ParseSuccess 'data
| ParseFailure "'issue list"

datatype ('uri, 'issue, 'bindings, 'modes) import_effect =
  ShowParseError jsstring 'issue
| InsertKeybindingsIntoConfig 'uri 'bindings
| ConfigUpdate jsstring jsstring 'modes

definition queryBindingFile :: "'uri list option \<Rightarrow> 'uri option" where
  "queryBindingFile file =
     (case file of
        None \<Rightarrow> None
      | Some files \<Rightarrow> if length files \<noteq> 1 then None else Some (files ! 0))"

definition importBindings ::
  "'uri list option \<Rightarrow> ('uri \<Rightarrow> ('data, 'issue) SafeParseReturn) \<Rightarrow> ('data \<Rightarrow> 'bindings) \<Rightarrow>
   ('data \<Rightarrow> 'modes option) \<Rightarrow> ('uri, 'issue, 'bindings, 'modes) import_effect list \<times> outcome" where
  "importBindings dialog parseBindingFile processBindings validModes =
     (case queryBindingFile dialog of
        None \<Rightarrow> ([], Returned)
      | Some file \<Rightarrow>
          (case parseBindingFile file of
             ParseSuccess data \<Rightarrow>
               ([InsertKeybindingsIntoConfig file (processBindings data)] @
                (case validModes data of
                   Some newValidModes \<Rightarrow>
                     [ConfigUpdate (str ''modalkeys'') (str ''validModes'') newValidModes]
                 | None \<Rightarrow> []),
                Returned)
           | ParseFailure issues \<Rightarrow>
               (map (ShowParseError (str ''Parsing of bindings failed: '')) (take 3 issues),
                Returned)))"

fun is_parse_report :: "('uri, 'issue, 'bindings, 'modes) import_effect \<Rightarrow> bool" where
  "is_parse_report (ShowParseError m i) = True"
| "is_parse_report e = False"

section \<open>The key-entry helper of the UI tests\<close>

text \<open>
  \<open>enterModalKeys\<close> of the utilities of the UI tests presses keys and waits for the
  status item to carry the label it expects. A key is a string, an array of strings, or
  a \<open>ModalKeySpec\<close>, whose count is an integer. The model keeps the local variables of
  the loop and lists what the helper presses and which labels it waits for.
\<close>

record ModalKeySpec =
  key :: "jsstring + jsstring list"
  count :: "int option"
  updatesStatus :: "bool option"

datatype ModalKey = KeyString jsstring | KeyArray "jsstring list" | KeySpec ModalKeySpec

datatype harness_error = KeysNotLowerCase | NotAString

datatype harness_action = AwaitLabel jsstring | PressKeys "jsstring list"

text \<open>\<open>(key as ModalKeySpec).key\<close> as a condition: a non-empty string or an array.\<close>

definition spec_with_key :: "ModalKey \<Rightarrow> ModalKeySpec option" where
  "spec_with_key k =
     (case k of
        KeySpec sp \<Rightarrow> (case key sp of Inl s \<Rightarrow> if s \<noteq> [] then Some sp else None
                                      | Inr a \<Rightarrow> Some sp)
      | _ \<Rightarrow> None)"

text \<open>
  \<open>modalKeyToStringArray\<close>. A spec whose key is the empty string is itself wrapped in an
  array (\<open>Inl\<close>); it is not a string, and \<open>toLowerCase\<close> fails on it later.
\<close>

definition modalKeyToStringArray :: "ModalKey \<Rightarrow> ModalKeySpec + jsstring list" where
  "modalKeyToStringArray k =
     (case spec_with_key k of
        Some sp \<Rightarrow> (case key sp of Inl s \<Rightarrow> Inr [s] | Inr a \<Rightarrow> Inr a)
      | None \<Rightarrow> (case k of KeyString s \<Rightarrow> Inr [s] | KeyArray a \<Rightarrow> Inr a
                         | KeySpec sp \<Rightarrow> Inl sp))"

definition modalKeyCount :: "ModalKey \<Rightarrow> int option" where
  "modalKeyCount k = (case spec_with_key k of Some sp \<Rightarrow> count sp | None \<Rightarrow> None)"

definition modalKeyUpdateStatus :: "ModalKey \<Rightarrow> bool" where
  "modalKeyUpdateStatus k =
     (case spec_with_key k of
        Some sp \<Rightarrow> (case updatesStatus sp of None \<Rightarrow> True | Some update \<Rightarrow> update)
      | None \<Rightarrow> True)"

record harness_locals =
  h_count :: jsnumber
  keySeqString :: jsstring
  checkCleared :: bool
  actions :: "harness_action list"

text \<open>
  One round of the loop over \<open>keySeq\<close> (lines 215 to 245). \<open>key_map\<close> is the lookup
  \<open>MODAL_KEY_MAP[k]\<close> where it is defined; the table holds constants of the browser
  driver that are not among the sources. The count is a number of the engine:
  \<open>count * 10 + keyCount\<close> is rounded as the engine rounds.
\<close>

definition enterModalKeys_round ::
  "engine \<Rightarrow> (jsstring \<Rightarrow> jsstring option) \<Rightarrow> harness_locals \<Rightarrow> ModalKey \<Rightarrow>
   harness_error + harness_locals" where
  "enterModalKeys_round e key_map v keys0 =
     (case modalKeyToStringArray keys0 of
        Inl sp \<Rightarrow> Inl NotAString
      | Inr keys \<Rightarrow>
          if map (toLowerCase e) keys \<noteq> keys then Inl KeysNotLowerCase
          else
            (let keyCodes = map (\<lambda>k. case key_map k of Some code \<Rightarrow> code | None \<Rightarrow> k) keys;
                 keyCount = modalKeyCount keys0;
                 keyString = concat (map (prettifyPrefix e) keys);
                 seq = (case keyCount of
                          None \<Rightarrow> (if keySeqString v \<noteq> []
                                    then keySeqString v @ str '', '' @ keyString
                                    else keyString)
                        | Some c \<Rightarrow> keySeqString v);
                 cnt = (case keyCount of
                          None \<Rightarrow> h_count v
                        | Some c \<Rightarrow> plus_int (times_10 (h_count v)) c);
                 currentKeySeqString =
                   (if truthy cnt then number_toString e cnt @ [215, 32] else []) @ seq
             in Inr (if modalKeyUpdateStatus keys0
                     then \<lparr>h_count = cnt, keySeqString = seq, checkCleared = True,
                           actions = actions v @
                             [PressKeys keyCodes,
                              AwaitLabel (str ''Keys Typed: '' @ currentKeySeqString)]\<rparr>
                     else \<lparr>h_count = cnt, keySeqString = seq, checkCleared = False,
                           actions = actions v @ [PressKeys keyCodes]\<rparr>)))"

fun enterModalKeys_loop ::
  "engine \<Rightarrow> (jsstring \<Rightarrow> jsstring option) \<Rightarrow> harness_locals \<Rightarrow> ModalKey list \<Rightarrow>
   harness_error + harness_locals" where
  "enterModalKeys_loop e key_map v [] = Inr v"
| "enterModalKeys_loop e key_map v (keys0 # rest) =
     (case enterModalKeys_round e key_map v keys0 of
        Inl err \<Rightarrow> Inl err
      | Inr v' \<Rightarrow> enterModalKeys_loop e key_map v' rest)"

text \<open>The locals before the loop: the helper has waited for the cleared status.\<close>

definition enterModalKeys_init :: harness_locals where
  "enterModalKeys_init =
     \<lparr>h_count = Finite 0, keySeqString = [], checkCleared = True,
      actions = [AwaitLabel (str ''No Keys Typed'')]\<rparr>"

definition enterModalKeys ::
  "engine \<Rightarrow> (jsstring \<Rightarrow> jsstring option) \<Rightarrow> ModalKey list \<Rightarrow>
   harness_error + harness_locals" where
  "enterModalKeys e key_map keySeq =
     (case enterModalKeys_loop e key_map enterModalKeys_init keySeq of
        Inl err \<Rightarrow> Inl err
      | Inr v \<Rightarrow>
          Inr (if checkCleared v
               then v\<lparr>actions := actions v @ [AwaitLabel (str ''No Keys Typed'')]\<rparr>
               else v))"

text \<open>The key spec for the digit \<open>d\<close> of a count: the key is the digit's character
  and \<open>count\<close> is its value.\<close>

definition digit_key :: "nat \<Rightarrow> ModalKey" where
  "digit_key d = KeySpec \<lparr>key = Inl [48 + d], count = Some (int d), updatesStatus = None\<rparr>"

section \<open>What the sources do not contain\<close>

text \<open>
  Modelled from the spec: the module \<open>utils\<close>, from which the status bar imports
  \<open>prettifyPrefix\<close>, is not among the sources. The spec has each chord of the prefix
  rendered in a glyph form, every modifier mapped to a fixed symbol; the mapping is the
  one of the function of the same name in the UI tests, whose text is taken for a single
  chord. How the chords of a longer prefix are joined is not fixed by the spec.
\<close>

definition utils_prettifyPrefix :: "engine \<Rightarrow> jsstring \<Rightarrow> jsstring" where
  "utils_prettifyPrefix e chord = prettifyPrefix e chord"

text \<open>
  Modelled from the spec: the module \<open>commands/count\<close>, which accumulates the count, and the
  dispatch of a command are not among the sources. The spec gives the key state a prefix,
  a count (absent by default) and a mode. A digit keystroke while not mid-prefix is
  appended to the count, the accumulated digits forming a base-10 integer in which a
  leading zero is a digit like any other; but a bare \<open>0\<close> with no prior digits is a chord
  when the configuration binds it (\<open>zero_is_bound\<close>). A keystroke that is not taken as a
  digit of the count is a chord, which this model leaves out (\<open>None\<close>).
\<close>

record KeyState =
  ks_prefix :: jsstring
  ks_count :: "int option"
  ks_mode :: jsstring

definition KeyState_empty :: "jsstring \<Rightarrow> KeyState" where
  "KeyState_empty m = \<lparr>ks_prefix = [], ks_count = None, ks_mode = m\<rparr>"

definition count_digit :: "bool \<Rightarrow> KeyState \<Rightarrow> nat \<Rightarrow> KeyState option" where
  "count_digit zero_is_bound ks d =
     (if ks_prefix ks \<noteq> [] then None
      else if d = 0 \<and> ks_count ks = None \<and> zero_is_bound then None
      else Some (ks\<lparr>ks_count := Some (get_or (ks_count ks) 0 * 10 + int d)\<rparr>))"

fun count_digits :: "bool \<Rightarrow> KeyState \<Rightarrow> nat list \<Rightarrow> KeyState option" where
  "count_digits zero_is_bound ks [] = Some ks"
| "count_digits zero_is_bound ks (d # ds) =
     (case count_digit zero_is_bound ks d of
        None \<Rightarrow> None
      | Some ks' \<Rightarrow> count_digits zero_is_bound ks' ds)"

text \<open>
  Modelled from the spec: at dispatch the computed arguments are resolved in a context
  built from the count, the mode and the prefix as typed, and the listeners of the
  status bar receive the count, as a number of the engine, and the prefix of the key
  state.
\<close>

record InvocationContext =
  ctx_count :: "int option"
  ctx_mode :: jsstring
  ctx_prefix :: jsstring

definition invocation_context :: "KeyState \<Rightarrow> InvocationContext" where
  "invocation_context ks =
     \<lparr>ctx_count = ks_count ks, ctx_mode = ks_mode ks, ctx_prefix = ks_prefix ks\<rparr>"

definition listener_values :: "KeyState \<Rightarrow> values_map" where
  "listener_values ks =
     \<lparr>COUNT = map_option to_double (ks_count ks), PREFIX = Some (ks_prefix ks)\<rparr>"

section \<open>Notions used in the statements\<close>

text \<open>
  The glyph form of a chord in the words of the claim: a chord is a list of modifiers and
  a final key; every modifier gives its symbol, and the final key gives its upper case,
  \<open>ESC\<close> for \<open>escape\<close>, and the symbol when it is itself the name of a modifier.
\<close>

datatype modifier = Ctrl | Shift | Alt | Meta | Win | Cmd

fun modifier_name :: "modifier \<Rightarrow> string" where
  "modifier_name Ctrl = ''ctrl''"
| "modifier_name Shift = ''shift''"
| "modifier_name Alt = ''alt''"
| "modifier_name Meta = ''meta''"
| "modifier_name Win = ''win''"
| "modifier_name Cmd = ''cmd''"

fun modifier_glyph :: "modifier \<Rightarrow> nat" where
  "modifier_glyph Ctrl = 94"
| "modifier_glyph Shift = 8679"
| "modifier_glyph Alt = 8997"
| "modifier_glyph Meta = 9670"
| "modifier_glyph Win = 8862"
| "modifier_glyph Cmd = 8984"

record chord =
  mods :: "modifier list"
  final_key :: jsstring


definition chord_parts :: "chord \<Rightarrow> jsstring list" where
  "chord_parts c = map (\<lambda>m. str (modifier_name m)) (mods c) @ [final_key c]"

definition key_glyphs :: "jsstring \<Rightarrow> jsstring" where
  "key_glyphs k =
     (case List.find (\<lambda>m. str (modifier_name m) = k) [Ctrl, Shift, Alt, Meta, Win, Cmd] of
        Some m \<Rightarrow> [modifier_glyph m]
      | None \<Rightarrow> if k = str ''escape'' then str ''ESC'' else map ascii_upper k)"

definition glyph_form :: "chord \<Rightarrow> jsstring" where
  "glyph_form c = map modifier_glyph (mods c) @ key_glyphs (final_key c)"

text \<open>
  The final keys of the statement: the name of a modifier, \<open>escape\<close>, or an ASCII name in
  whose upper case none of the seven patterns matches anywhere (so that it does not end
  in the name of a modifier and does not contain \<open>escape\<close>).
\<close>

definition patterns :: "(jsstring \<times> bool) list" where
  "patterns =
     [(str ''shift'', True), (str ''ctrl'', True), (str ''alt'', True), (str ''meta'', True),
      (str ''win'', True), (str ''cmd'', True), (str ''escape'', False)]"

definition pattern_free :: "jsstring \<Rightarrow> bool" where
  "pattern_free s =
     list_all (\<lambda>(tok, follow). list_all (\<lambda>i. token_re tok follow s i = None)
                  [0 ..< Suc (length s)]) patterns"

definition final_key_ok :: "jsstring \<Rightarrow> bool" where
  "final_key_ok k =
     (List.find (\<lambda>m. str (modifier_name m) = k) [Ctrl, Shift, Alt, Meta, Win, Cmd] \<noteq> None
      \<or> k = str ''escape''
      \<or> (is_ascii k \<and> pattern_free (map ascii_upper k)))"

text \<open>
  The seven replacements of \<open>prettifyPrefix\<close>, which follow its conversion to upper case,
  and the words in which a pattern occurs at some index.
\<close>

definition glyph_passes :: "jsstring \<Rightarrow> jsstring" where
  "glyph_passes s1 =
     (let s2 = js_replace (token_re (str ''shift'') True) [8679] s1;
          s3 = js_replace (token_re (str ''ctrl'') True) [94] s2;
          s4 = js_replace (token_re (str ''alt'') True) [8997] s3;
          s5 = js_replace (token_re (str ''meta'') True) [9670] s4;
          s6 = js_replace (token_re (str ''win'') True) [8862] s5;
          s7 = js_replace (token_re (str ''cmd'') True) [8984] s6
      in js_replace (token_re (str ''escape'') False) (str ''ESC'') s7)"


text \<open>
  An engine for the closed statements. They stay within ASCII strings and safe integers,
  where every engine computes the same.
\<close>

definition ascii_engine :: engine where
  "ascii_engine =
     \<lparr>upper_unicode = (\<lambda>s. s), lower_unicode = (\<lambda>s. s), toString_unsafe = (\<lambda>n. [])\<rparr>"

text \<open>A change event that affects the section \<open>master-key\<close>.\<close>

fun affects_master_key :: "event \<Rightarrow> bool" where
  "affects_master_key (ConfigurationChanged affects stored) = affects ''master-key''"
| "affects_master_key ev = False"

text \<open>The firing of a pending timer whose captured counter is the current one.\<close>

fun clearing_takes_effect :: "state \<Rightarrow> event \<Rightarrow> bool" where
  "clearing_takes_effect s (TimerFires i) =
     (i < length (timers s) \<and> currentUpdate (timers s ! i) = statusUpdates s)"
| "clearing_takes_effect s ev = False"

text \<open>An empty update followed by the firing of the clearing it scheduled.\<close>

definition clear_round :: "event list" where
  "clear_round = [ValuesSet \<lparr>COUNT = None, PREFIX = None\<rparr>, TimerFires 0]"

text \<open>A state with a status item, a positive delay and no clearing pending.\<close>

definition ready :: "state \<Rightarrow> bool" where
  "ready s = (keyStatusBar s \<noteq> None \<and> 0 < keyDisplayDelay s \<and> timers s = [])"

text \<open>The base-10 integer that a sequence of digits spells.\<close>

definition spelled :: "nat list \<Rightarrow> int" where
  "spelled ds = (\<Sum>i<length ds. int (ds ! i) * 10 ^ (length ds - Suc i))"

text \<open>An editor on a keybindings file that has its opening bracket and the start marker
  of the automated bindings, and no end marker.\<close>

definition marked_editor :: editor where
  "marked_editor =
     \<lparr>searchMatches = (\<lambda>t.
         if t = str ''['' then
           [\<lparr>range_start = \<lparr>line = 0, character = 0\<rparr>, range_end = \<lparr>line = 0, character = 1\<rparr>\<rparr>]
         else if t = str ''AUTOMATED BINDINGS START'' then
           [\<lparr>range_start = \<lparr>line = 1, character = 7\<rparr>, range_end = \<lparr>line = 1, character = 31\<rparr>\<rparr>]
         else []),
      doc_lines = [str ''['', str ''    // AUTOMATED BINDINGS START: ModalKey Bindings'', str '']'']\<rparr>"

section \<open>Properties of replacement\<close>

text \<open>
  A global replacement proceeds through the string from left to right. What lies before
  a part that the pattern cannot reach stays as it is, a part that the pattern matches
  as a whole is replaced, and the rest is replaced on its own.
\<close>

lemma replace_scan_skip:
  "\<forall>i\<in>set c1. i < li \<or> re s i = None \<Longrightarrow>
   replace_scan re rep s (c1 @ c2) li nsp = replace_scan re rep s c2 li nsp"
  by (induction c1) auto









lemma js_replace_none:
  assumes "\<forall>i\<le>length s. re s i = None"
  shows "js_replace re rep s = s"
proof -
  have "replace_scan re rep s ([0 ..< Suc (length s)] @ []) 0 0 = replace_scan re rep s [] 0 0"
    using assms by (intro replace_scan_skip) (simp add: less_Suc_eq_le)
  then show ?thesis by (simp add: js_replace_def)
qed


section \<open>The glyph mapping\<close>

text \<open>
  \<open>prettifyPrefix\<close> is the conversion to upper case followed by the seven replacements.
  On the name of a modifier followed by \<open>+\<close> each of them either replaces that name by
  its symbol or passes over it, and continues on the rest of the chord.
\<close>

lemma prettifyPrefix_passes: "prettifyPrefix e s = glyph_passes (toUpperCase e s)"
  by (simp add: prettifyPrefix_def glyph_passes_def)

lemma toUpperCase_ascii: "is_ascii s \<Longrightarrow> toUpperCase e s = map ascii_upper s"
  by (simp add: toUpperCase_def)













lemma word_escape: "map canonicalize (str ''escape'') = str ''ESCAPE''" by code_simp







lemma is_ascii_append: "is_ascii (a @ b) \<longleftrightarrow> is_ascii a \<and> is_ascii b"
  by (simp add: is_ascii_def)





lemma glyph_passes_free:
  assumes "pattern_free s"
  shows "glyph_passes s = s"
proof -
  have none: "js_replace (token_re tok follow) rep s = s"
    if "(tok, follow) \<in> set patterns" for tok follow rep
  proof (rule js_replace_none)
    from assms that have "list_all (\<lambda>i. token_re tok follow s i = None) [0 ..< Suc (length s)]"
      unfolding pattern_free_def list_all_iff by blast
    then show "\<forall>i\<le>length s. token_re tok follow s i = None"
      by (simp add: list_all_iff less_Suc_eq_le del: upt_Suc)
  qed
  show ?thesis
    unfolding glyph_passes_def Let_def
    by (simp add: none patterns_def)
qed

lemma prettifyPrefix_name: "prettifyPrefix e (str (modifier_name m)) = [modifier_glyph m]"
  by (cases m) (simp_all, code_simp+)

lemma prettifyPrefix_escape: "prettifyPrefix e (str ''escape'') = str ''ESC''"
  by code_simp

lemma key_glyphs_name: "key_glyphs (str (modifier_name m)) = [modifier_glyph m]"
  by (cases m) (simp_all, code_simp+)

lemma find_name:
  "List.find (\<lambda>m. str (modifier_name m) = k) [Ctrl, Shift, Alt, Meta, Win, Cmd] = Some m
   \<Longrightarrow> k = str (modifier_name m)"
  by (auto split: if_splits)

lemma name_not_free: "\<not> pattern_free (map ascii_upper (str (modifier_name m)))"
  by (cases m) (simp_all, code_simp+)

lemma escape_not_free: "\<not> pattern_free (map ascii_upper (str ''escape''))"
  by code_simp

lemma is_ascii_names: "is_ascii (str (modifier_name m))" "is_ascii (str ''escape'')"
  by (cases m) (simp_all add: is_ascii_def str_def)

lemma prettifyPrefix_final_key:
  assumes "final_key_ok k"
  shows "prettifyPrefix e k = key_glyphs k \<and> is_ascii k"
proof (cases "List.find (\<lambda>m. str (modifier_name m) = k) [Ctrl, Shift, Alt, Meta, Win, Cmd]")
  case (Some m)
  from find_name [OF Some] show ?thesis
    by (simp add: prettifyPrefix_name key_glyphs_name is_ascii_names)
next
  case None
  show ?thesis
  proof (cases "k = str ''escape''")
    case True
    with None show ?thesis
      by (simp add: prettifyPrefix_escape key_glyphs_def is_ascii_names)
  next
    case False
    with None assms have k: "is_ascii k" "pattern_free (map ascii_upper k)"
      by (simp_all add: final_key_ok_def)
    then have "prettifyPrefix e k = map ascii_upper k"
      by (simp add: prettifyPrefix_passes toUpperCase_ascii glyph_passes_free)
    with None False k show ?thesis by (simp add: key_glyphs_def)
  qed
qed




lemma prettifyPrefix_parts:
  "final_key_ok (final_key c) \<Longrightarrow>
   concat (map (prettifyPrefix e) (chord_parts c)) = glyph_form c"
  using prettifyPrefix_final_key [of "final_key c" e]
  by (simp add: chord_parts_def glyph_form_def prettifyPrefix_name comp_def)

section \<open>The text of a count\<close>

text \<open>The numeral of a safe integer is the sequence of the digits that spell it.\<close>

lemma spelled_Nil: "spelled [] = 0"
  by (simp add: spelled_def)

lemma spelled_single: "spelled [d] = int d"
  by (simp add: spelled_def)

lemma spelled_snoc: "spelled (ds @ [d]) = spelled ds * 10 + int d"
proof -
  have "(\<Sum>i<length ds. int ((ds @ [d]) ! i) * 10 ^ (length ds - i))
      = (\<Sum>i<length ds. (int (ds ! i) * 10 ^ (length ds - Suc i)) * 10)"
  proof (rule sum.cong)
    fix i assume "i \<in> {..<length ds}"
    then have i: "i < length ds" by simp
    then have "length ds - i = Suc (length ds - Suc i)" by simp
    then show "int ((ds @ [d]) ! i) * 10 ^ (length ds - i)
        = (int (ds ! i) * 10 ^ (length ds - Suc i)) * 10"
      using i by (simp add: nth_append)
  qed simp
  then show ?thesis
    by (simp add: spelled_def sum_distrib_right)
qed

lemma spelled_nonneg: "0 \<le> spelled ds"
  by (simp add: spelled_def sum_nonneg)

lemma spelled_pos: "ds \<noteq> [] \<Longrightarrow> hd ds \<noteq> 0 \<Longrightarrow> 0 < spelled ds"
proof (induction ds rule: rev_induct)
  case Nil
  then show ?case by simp
next
  case (snoc d ds)
  show ?case
  proof (cases "ds = []")
    case True
    with snoc.prems show ?thesis by (simp add: spelled_single)
  next
    case False
    with snoc have "0 < spelled ds" by simp
    then show ?thesis by (simp add: spelled_snoc)
  qed
qed

lemma spelled_prefix_le: "spelled ds \<le> spelled (ds @ [d])"
  using spelled_nonneg [of ds] by (simp add: spelled_snoc)

lemma digits_digit: "d < 10 \<Longrightarrow> digits d = [48 + d]"
  by (simp add: digits.simps)

lemma digits_snoc: "0 < n \<Longrightarrow> d < 10 \<Longrightarrow> digits (n * 10 + d) = digits n @ [48 + d]"
  by (subst digits.simps) simp

lemma digits_spelled:
  "list_all (\<lambda>d. d < 10) ds \<Longrightarrow> ds \<noteq> [] \<Longrightarrow> hd ds \<noteq> 0 \<Longrightarrow>
   digits (nat (spelled ds)) = map (\<lambda>d. 48 + d) ds"
proof (induction ds rule: rev_induct)
  case Nil
  then show ?case by simp
next
  case (snoc d ds)
  from snoc.prems have d: "d < 10" and all: "list_all (\<lambda>d. d < 10) ds" by simp_all
  show ?case
  proof (cases "ds = []")
    case True
    with d show ?thesis by (simp add: spelled_single digits_digit)
  next
    case False
    with snoc.prems have hd: "hd ds \<noteq> 0" by simp
    from spelled_pos [OF False hd] have pos: "0 < spelled ds" .
    then have "nat (spelled ds * 10 + int d) = nat (spelled ds) * 10 + d"
      by (simp add: nat_add_distrib nat_mult_distrib)
    with snoc.IH [OF all False hd] pos d show ?thesis
      by (simp add: spelled_snoc digits_snoc)
  qed
qed

lemma number_toString_safe:
  "0 \<le> n \<Longrightarrow> n \<le> MAX_SAFE_INTEGER \<Longrightarrow> number_toString e (Finite n) = digits (nat n)"
  by (simp add: MIN_SAFE_INTEGER_def)

lemma number_toString_spelled:
  "list_all (\<lambda>d. d < 10) ds \<Longrightarrow> ds \<noteq> [] \<Longrightarrow> hd ds \<noteq> 0 \<Longrightarrow> spelled ds \<le> MAX_SAFE_INTEGER \<Longrightarrow>
   number_toString e (Finite (spelled ds)) = map (\<lambda>d. 48 + d) ds"
  using spelled_nonneg [of ds]
  by (simp add: number_toString_safe digits_spelled del: number_toString.simps)

section \<open>Properties of the status projection\<close>


lemma plannedUpdate_of_unfold:
  "plannedUpdate_of prettify e values =
     (if truthy (get_or (COUNT values) (Finite 0))
      then number_toString e (get_or (COUNT values) (Finite 0)) @ [215, 32] else []) @
     prettify (get_or (PREFIX values) [])"
  by (simp add: plannedUpdate_of_def Let_def)



section \<open>Properties of the delayed clearing\<close>

text \<open>A callback whose captured counter differs from \<open>statusUpdates\<close> does nothing.\<close>

lemma mismatched_callback_is_skipped:
  "currentUpdate t \<noteq> statusUpdates s \<Longrightarrow> clear_callback t s = s"
  by (simp add: clear_callback_def)

text \<open>
  C2: a clearing callback scheduled by an earlier event should be without effect once a
  later keystroke has updated the status. In the module only a clearing callback that
  takes effect changes \<open>statusUpdates\<close>; a keystroke's update does not. After an empty
  update (which schedules the clearing) and then the update for count 3 with prefix
  \<open>ctrl+x\<close>, the pending callback still holds the current counter, and when it fires it
  replaces the text of the keystroke by the empty string.
\<close>

theorem stale_clear_overwrites_keystroke:
  "(let s1 = step (utils_prettifyPrefix ascii_engine) ascii_engine False (activate False None)
               (ValuesSet \<lparr>COUNT = Some (Finite 0), PREFIX = Some []\<rparr>);
        s2 = step (utils_prettifyPrefix ascii_engine) ascii_engine False s1
               (ValuesSet \<lparr>COUNT = Some (Finite 3), PREFIX = Some (str ''ctrl+x'')\<rparr>);
        s3 = step (utils_prettifyPrefix ascii_engine) ascii_engine False s2 (TimerFires 0)
    in map_option bar_text (keyStatusBar s2) = Some (str ''3'' @ [215, 32] @ str ''^X'')
       \<and> map currentUpdate (timers s2) = [statusUpdates s2]
       \<and> map_option bar_text (keyStatusBar s3) = Some []
       \<and> map_option bar_label (keyStatusBar s3) = Some (str ''No Keys Typed''))"
  by code_simp

section \<open>Properties of the configuration and of the counter\<close>

lemma updateKeyStatus_frame:
  "keyDisplayDelay (snd (snd (updateKeyStatus prettify e values s))) = keyDisplayDelay s"
  "configReads (snd (snd (updateKeyStatus prettify e values s))) = configReads s"
  "statusUpdates (snd (snd (updateKeyStatus prettify e values s))) = statusUpdates s"
  by (simp_all add: updateKeyStatus_def Let_def split: option.splits)

lemma clear_callback_frame:
  "keyDisplayDelay (clear_callback t s) = keyDisplayDelay s"
  "configReads (clear_callback t s) = configReads s"
  "timers (clear_callback t s) = timers s"
  by (simp_all add: clear_callback_def Let_def split: option.splits)

lemma updateConfig_unchanged:
  "\<not> ((event = None \<and> \<not> testing) \<or> (\<exists>affects. event = Some affects \<and> affects ''master-key''))
   \<Longrightarrow> updateConfig testing event stored s = s"
  by (cases event) (auto simp: updateConfig_def)

lemma step_config_frame:
  "\<not> affects_master_key ev \<Longrightarrow>
   keyDisplayDelay (step prettify e testing s ev) = keyDisplayDelay s \<and>
   configReads (step prettify e testing s ev) = configReads s"
  by (cases ev) (auto simp: updateKeyStatus_frame clear_callback_frame updateConfig_def)

lemma run_config_frame:
  "list_all (\<lambda>ev. \<not> affects_master_key ev) evs \<Longrightarrow>
   keyDisplayDelay (run prettify e testing s evs) = keyDisplayDelay s \<and>
   configReads (run prettify e testing s evs) = configReads s"
  unfolding run_def
  by (induction evs arbitrary: s) (auto simp: step_config_frame)

text \<open>
  C4: the effective \<open>keyDisplayDelay\<close> is changed, and the configuration store is read, only
  by \<open>updateConfig\<close>, and only when it is called without an event outside of testing (the
  startup read) or with an event that affects the section \<open>master-key\<close>. Of the events
  after activation only such a change event can alter the delay or read the store;
  \<open>updateKeyStatus\<close> leaves the delay as it is and reads nothing, and so does every
  sequence of events without such a change event.
\<close>

theorem keyDisplayDelay_changes_only_on_notified_change:
  "(keyDisplayDelay (updateConfig testing event stored s) \<noteq> keyDisplayDelay s
      \<or> configReads (updateConfig testing event stored s) \<noteq> configReads s
    \<longrightarrow> (event = None \<and> \<not> testing) \<or> (\<exists>affects. event = Some affects \<and> affects ''master-key''))
   \<and> (keyDisplayDelay (step prettify e testing s ev) \<noteq> keyDisplayDelay s
        \<or> configReads (step prettify e testing s ev) \<noteq> configReads s
      \<longrightarrow> affects_master_key ev)
   \<and> keyDisplayDelay (snd (snd (updateKeyStatus prettify e values s))) = keyDisplayDelay s
   \<and> configReads (snd (snd (updateKeyStatus prettify e values s))) = configReads s
   \<and> (list_all (\<lambda>ev. \<not> affects_master_key ev) evs
      \<longrightarrow> keyDisplayDelay (run prettify e testing s evs) = keyDisplayDelay s
          \<and> configReads (run prettify e testing s evs) = configReads s)"
proof (intro conjI impI)
  assume "keyDisplayDelay (updateConfig testing event stored s) \<noteq> keyDisplayDelay s
      \<or> configReads (updateConfig testing event stored s) \<noteq> configReads s"
  then have "updateConfig testing event stored s \<noteq> s" by auto
  then show "(event = None \<and> \<not> testing) \<or> (\<exists>affects. event = Some affects \<and> affects ''master-key'')"
    using updateConfig_unchanged [of event testing stored s] by blast
next
  assume "keyDisplayDelay (step prettify e testing s ev) \<noteq> keyDisplayDelay s
        \<or> configReads (step prettify e testing s ev) \<noteq> configReads s"
  then show "affects_master_key ev"
    using step_config_frame [of ev prettify e testing s] by blast
next
  show "keyDisplayDelay (snd (snd (updateKeyStatus prettify e values s))) = keyDisplayDelay s"
    by (rule updateKeyStatus_frame)
next
  show "configReads (snd (snd (updateKeyStatus prettify e values s))) = configReads s"
    by (rule updateKeyStatus_frame)
next
  assume "list_all (\<lambda>ev. \<not> affects_master_key ev) evs"
  then show "keyDisplayDelay (run prettify e testing s evs) = keyDisplayDelay s"
    using run_config_frame [of evs prettify e testing s] by blast
next
  assume "list_all (\<lambda>ev. \<not> affects_master_key ev) evs"
  then show "configReads (run prettify e testing s evs) = configReads s"
    using run_config_frame [of evs prettify e testing s] by blast
qed

text \<open>A startup read, a change of the section, and a sequence without such a change.\<close>

theorem keyDisplayDelay_changes_only_on_notified_change_witness:
  "keyDisplayDelay (activate False None) = 500
   \<and> keyDisplayDelay (step (utils_prettifyPrefix ascii_engine) ascii_engine False
        (activate False None)
        (ConfigurationChanged (\<lambda>section. section = ''master-key'') (Some 250))) = 250
   \<and> affects_master_key (ConfigurationChanged (\<lambda>section. section = ''master-key'') (Some 250))
   \<and> list_all (\<lambda>ev. \<not> affects_master_key ev)
        [ValuesSet \<lparr>COUNT = Some (Finite 3), PREFIX = Some (str ''ctrl+x'')\<rparr>,
         ConfigurationChanged (\<lambda>section. section = ''editor'') (Some 250), TimerFires 0]
   \<and> keyDisplayDelay (run (utils_prettifyPrefix ascii_engine) ascii_engine False
        (activate False None)
        [ValuesSet \<lparr>COUNT = Some (Finite 3), PREFIX = Some (str ''ctrl+x'')\<rparr>,
         ConfigurationChanged (\<lambda>section. section = ''editor'') (Some 250), TimerFires 0]) = 500"
proof -
  have a: "keyDisplayDelay (activate False None) = 500"
    by (simp add: activate_def updateConfig_def module_init_def KEY_DISPLAY_DELAY_DEFAULT_def)
  have b: "keyDisplayDelay (step (utils_prettifyPrefix ascii_engine) ascii_engine False
        (activate False None)
        (ConfigurationChanged (\<lambda>section. section = ''master-key'') (Some 250))) = 250"
    by (simp add: updateConfig_def)
  have c: "list_all (\<lambda>ev. \<not> affects_master_key ev)
        [ValuesSet \<lparr>COUNT = Some (Finite 3), PREFIX = Some (str ''ctrl+x'')\<rparr>,
         ConfigurationChanged (\<lambda>section. section = ''editor'') (Some 250), TimerFires 0]"
    by simp
  from keyDisplayDelay_changes_only_on_notified_change
    [of False None None "activate False None" "utils_prettifyPrefix ascii_engine" ascii_engine
        "ConfigurationChanged (\<lambda>section. section = ''master-key'') (Some 250)"
        "\<lparr>COUNT = None, PREFIX = None\<rparr>"
        "[ValuesSet \<lparr>COUNT = Some (Finite 3), PREFIX = Some (str ''ctrl+x'')\<rparr>,
         ConfigurationChanged (\<lambda>section. section = ''editor'') (Some 250), TimerFires 0]"]
    a b c
  show ?thesis by simp
qed

lemma run_append:
  "run prettify e testing s (a @ b) = run prettify e testing (run prettify e testing s a) b"
  by (simp add: run_def)

lemma run_snoc:
  "run prettify e testing s (evs @ [ev])
     = step prettify e testing (run prettify e testing s evs) ev"
  by (simp add: run_def)

lemma plannedUpdate_of_empty:
  "plannedUpdate_of (utils_prettifyPrefix e) e \<lparr>COUNT = None, PREFIX = None\<rparr> = []"
  by code_simp

lemma clear_round_counts:
  assumes "ready s" and "statusUpdates s < MAX_SAFE_INTEGER"
  shows "ready (run (utils_prettifyPrefix e) e testing s clear_round) \<and>
         statusUpdates (run (utils_prettifyPrefix e) e testing s clear_round) = statusUpdates s + 1"
  using assms
  by (auto simp: ready_def run_def clear_round_def updateKeyStatus_def plannedUpdate_of_empty
      clear_callback_def Let_def)

lemma clear_round_wraps:
  assumes "ready s" and "statusUpdates s = MAX_SAFE_INTEGER"
  shows "statusUpdates (run (utils_prettifyPrefix e) e testing s clear_round) = MIN_SAFE_INTEGER"
  using assms
  by (auto simp: ready_def run_def clear_round_def updateKeyStatus_def plannedUpdate_of_empty
      clear_callback_def Let_def)

lemma concat_replicate_Suc:
  "concat (replicate (Suc n) xs) = concat (replicate n xs) @ xs"
  by (induction n) simp_all

lemma clear_rounds_count:
  "ready s \<Longrightarrow> statusUpdates s + int n \<le> MAX_SAFE_INTEGER \<Longrightarrow>
   ready (run (utils_prettifyPrefix e) e testing s (concat (replicate n clear_round))) \<and>
   statusUpdates (run (utils_prettifyPrefix e) e testing s (concat (replicate n clear_round)))
     = statusUpdates s + int n"
proof (induction n)
  case 0
  then show ?case by (simp add: run_def)
next
  case (Suc n)
  let ?r = "run (utils_prettifyPrefix e) e testing s (concat (replicate n clear_round))"
  have split: "concat (replicate (Suc n) clear_round) = concat (replicate n clear_round) @ clear_round"
    by (rule concat_replicate_Suc)
  from Suc have ih: "ready ?r" "statusUpdates ?r = statusUpdates s + int n"
    by simp_all
  from Suc.prems ih(2) have "statusUpdates ?r < MAX_SAFE_INTEGER"
    by simp
  from clear_round_counts [OF ih(1) this, of e testing] ih(2)
  show ?case unfolding split run_append by simp
qed

lemma ready_activate: "ready (activate testing stored) \<longleftrightarrow> 0 < keyDisplayDelay (activate testing stored)"
  by (simp add: ready_def activate_def updateConfig_def module_init_def)

lemma activate_default: "keyDisplayDelay (activate False None) = 500 \<and> statusUpdates (activate False None) = MIN_SAFE_INTEGER"
  by (simp add: activate_def updateConfig_def module_init_def KEY_DISPLAY_DELAY_DEFAULT_def)

text \<open>
  C5 (as stated): the counter never decreases. It does: after \<open>2^54 - 2\<close> rounds of an empty
  update and its clearing the counter has reached \<open>MAX_SAFE_INTEGER\<close>, and the next round
  sets it back to \<open>MIN_SAFE_INTEGER\<close>.
\<close>

theorem counter_wraps_around:
  "statusUpdates (run (utils_prettifyPrefix ascii_engine) ascii_engine False (activate False None)
      (concat (replicate (2 ^ 54 - 1) clear_round)))
   < statusUpdates (run (utils_prettifyPrefix ascii_engine) ascii_engine False (activate False None)
      (concat (replicate (2 ^ 54 - 2) clear_round)))"
proof -
  let ?s = "run (utils_prettifyPrefix ascii_engine) ascii_engine False (activate False None)
      (concat (replicate (2 ^ 54 - 2) clear_round))"
  have r: "ready (activate False None)" by (simp add: ready_activate activate_default)
  have bound: "statusUpdates (activate False None) + int (2 ^ 54 - 2) \<le> MAX_SAFE_INTEGER"
    by (simp add: activate_default MIN_SAFE_INTEGER_def MAX_SAFE_INTEGER_def)
  from clear_rounds_count [OF r bound, of ascii_engine False]
  have s: "ready ?s" "statusUpdates ?s = MAX_SAFE_INTEGER"
    by (simp_all add: activate_default MIN_SAFE_INTEGER_def MAX_SAFE_INTEGER_def)
  have split: "concat (replicate (2 ^ 54 - 1) clear_round)
      = concat (replicate (2 ^ 54 - 2) clear_round) @ clear_round"
    using concat_replicate_Suc [of "2 ^ 54 - 2" clear_round] by simp
  have "statusUpdates (run (utils_prettifyPrefix ascii_engine) ascii_engine False ?s clear_round)
      = MIN_SAFE_INTEGER"
    by (rule clear_round_wraps [OF s])
  then show ?thesis
    unfolding split run_append using s(2)
    by (simp add: MIN_SAFE_INTEGER_def MAX_SAFE_INTEGER_def)
qed

lemma step_counter:
  "(\<not> clearing_takes_effect s ev \<and> statusUpdates (step prettify e testing s ev) = statusUpdates s)
   \<or> (clearing_takes_effect s ev \<and> statusUpdates s < MAX_SAFE_INTEGER
       \<and> statusUpdates (step prettify e testing s ev) = statusUpdates s + 1)
   \<or> (clearing_takes_effect s ev \<and> MAX_SAFE_INTEGER \<le> statusUpdates s
       \<and> statusUpdates (step prettify e testing s ev) = MIN_SAFE_INTEGER)"
proof (cases ev)
  case (ValuesSet v)
  then show ?thesis by (simp add: updateKeyStatus_frame)
next
  case (ConfigurationChanged a st)
  then show ?thesis by (simp add: updateConfig_def)
next
  case (TimerFires i)
  then show ?thesis
    by (auto simp: clear_callback_def Let_def split: option.splits)
qed

lemma activate_counter: "statusUpdates (activate testing stored) = MIN_SAFE_INTEGER"
  by (simp add: activate_def updateConfig_def module_init_def)

lemma run_counter_range:
  "MIN_SAFE_INTEGER \<le> statusUpdates (run prettify e testing (activate testing stored) evs) \<and>
   statusUpdates (run prettify e testing (activate testing stored) evs) \<le> MAX_SAFE_INTEGER"
proof (induction evs rule: rev_induct)
  case Nil
  then show ?case
    by (simp add: run_def activate_counter MIN_SAFE_INTEGER_def MAX_SAFE_INTEGER_def)
next
  case (snoc ev evs)
  then show ?case
    using step_counter [of "run prettify e testing (activate testing stored) evs" ev prettify e testing]
    unfolding run_snoc
    by (auto simp: MIN_SAFE_INTEGER_def MAX_SAFE_INTEGER_def)
qed

text \<open>
  C5 (amended): along every sequence of events after activation the counter stays between
  \<open>MIN_SAFE_INTEGER\<close> and \<open>MAX_SAFE_INTEGER\<close>, and an event never decreases it, except
  that a clearing callback taking effect while the counter is at \<open>MAX_SAFE_INTEGER\<close>
  resets it to \<open>MIN_SAFE_INTEGER\<close>.
\<close>

theorem counter_steps:
  "MIN_SAFE_INTEGER \<le> statusUpdates (run prettify e testing (activate testing stored) evs)
   \<and> statusUpdates (run prettify e testing (activate testing stored) evs) \<le> MAX_SAFE_INTEGER
   \<and> (statusUpdates (run prettify e testing (activate testing stored) evs)
        \<le> statusUpdates (run prettify e testing (activate testing stored) (evs @ [ev]))
      \<or> (statusUpdates (run prettify e testing (activate testing stored) evs) = MAX_SAFE_INTEGER
         \<and> statusUpdates (run prettify e testing (activate testing stored) (evs @ [ev]))
             = MIN_SAFE_INTEGER
         \<and> clearing_takes_effect (run prettify e testing (activate testing stored) evs) ev))"
  using run_counter_range [of prettify e testing stored evs]
    step_counter [of "run prettify e testing (activate testing stored) evs" ev prettify e testing]
  unfolding run_snoc
  by auto

section \<open>Frame of the status update\<close>

lemma clear_callback_touches:
  "(clear_callback t s)\<lparr>keyStatusBar := keyStatusBar s, statusUpdates := statusUpdates s\<rparr> = s"
  by (simp add: clear_callback_def Let_def split: option.splits)

text \<open>
  C7 (as stated): the call has no effect other than updating the status item. It has:
  an empty update after activation leaves the status item as it is and queues a clearing
  callback, and the firing of that callback changes the counter \<open>statusUpdates\<close>.
\<close>

theorem empty_update_schedules_clearing:
  "(let s0 = activate False None;
        s1 = snd (snd (updateKeyStatus (utils_prettifyPrefix ascii_engine) ascii_engine
                         \<lparr>COUNT = None, PREFIX = None\<rparr> s0));
        s2 = step (utils_prettifyPrefix ascii_engine) ascii_engine False s1 (TimerFires 0)
    in keyStatusBar s1 = keyStatusBar s0
       \<and> timers s0 = []
       \<and> timers s1 = [\<lparr>currentUpdate = MIN_SAFE_INTEGER, plannedUpdate = [], delay = 500\<rparr>]
       \<and> statusUpdates s1 = MIN_SAFE_INTEGER
       \<and> statusUpdates s2 = MIN_SAFE_INTEGER + 1)"
  by (simp add: Let_def activate_def updateConfig_def module_init_def
      KEY_DISPLAY_DELAY_DEFAULT_def updateKeyStatus_def plannedUpdate_of_empty
      clear_callback_def MIN_SAFE_INTEGER_def MAX_SAFE_INTEGER_def)

text \<open>
  C7 (amended): \<open>updateKeyStatus\<close> returns \<open>true\<close> and leaves the values map (its count
  and prefix entries) as it was. Of the module state the call changes nothing, or it
  writes the projection as text and label of the status item, or, for an empty
  projection, it queues one clearing callback that has captured the current counter; the
  delay, the counter and the configuration reads are not changed by the call. The
  clearing callback, when it fires, changes nothing but the status item and the counter.
\<close>

theorem updateKeyStatus_effects:
  "fst (updateKeyStatus prettify e values s) = True
   \<and> fst (snd (updateKeyStatus prettify e values s)) = values
   \<and> keyDisplayDelay (snd (snd (updateKeyStatus prettify e values s))) = keyDisplayDelay s
   \<and> statusUpdates (snd (snd (updateKeyStatus prettify e values s))) = statusUpdates s
   \<and> configReads (snd (snd (updateKeyStatus prettify e values s))) = configReads s
   \<and> (snd (snd (updateKeyStatus prettify e values s)) = s
       \<or> snd (snd (updateKeyStatus prettify e values s))
            = s\<lparr>keyStatusBar := Some \<lparr>bar_text = plannedUpdate_of prettify e values,
                   bar_label = str ''Keys Typed: '' @ plannedUpdate_of prettify e values\<rparr>\<rparr>
       \<or> (plannedUpdate_of prettify e values = []
           \<and> snd (snd (updateKeyStatus prettify e values s))
               = s\<lparr>timers := timers s @
                     [\<lparr>currentUpdate = statusUpdates s, plannedUpdate = [],
                       delay = keyDisplayDelay s\<rparr>]\<rparr>))
   \<and> (clear_callback t s)\<lparr>keyStatusBar := keyStatusBar s, statusUpdates := statusUpdates s\<rparr> = s"
  by (simp add: updateKeyStatus_frame clear_callback_touches)
     (auto simp: updateKeyStatus_def Let_def split: option.splits)

section \<open>The configured delay\<close>

text \<open>
  C8 (as stated): the branch that suppresses the display is never reached through the
  configuration. It is: a configured value of \<open>-1\<close> is not replaced by the default, at
  startup or on a change event, and with it \<open>updateKeyStatus\<close> changes nothing.
\<close>

theorem negative_delay_suppresses_display:
  "keyDisplayDelay (activate False (Some (- 1))) \<le> 0
   \<and> keyDisplayDelay (step (utils_prettifyPrefix ascii_engine) ascii_engine False
        (activate False None)
        (ConfigurationChanged (\<lambda>section. section = ''master-key'') (Some (- 1)))) \<le> 0
   \<and> step (utils_prettifyPrefix ascii_engine) ascii_engine False (activate False (Some (- 1)))
        (ValuesSet \<lparr>COUNT = Some (Finite 3), PREFIX = Some (str ''ctrl+x'')\<rparr>)
      = activate False (Some (- 1))"
  by (simp add: activate_def updateConfig_def module_init_def updateKeyStatus_def)

text \<open>
  C8 (amended): when \<open>updateConfig\<close> reads the configuration, a value that is unset or \<open>0\<close>
  gives the built-in default, which is positive, so that configuring \<open>0\<close> does not hide the
  display; any other value becomes the effective delay, so the display is suppressed
  through the configuration exactly when the configured value is negative.
\<close>

theorem configured_delay:
  assumes "(event = None \<and> \<not> testing) \<or> (\<exists>affects. event = Some affects \<and> affects ''master-key'')"
  shows "(stored = None \<or> stored = Some 0 \<longrightarrow>
            keyDisplayDelay (updateConfig testing event stored s) = KEY_DISPLAY_DELAY_DEFAULT testing)
       \<and> 0 < KEY_DISPLAY_DELAY_DEFAULT testing
       \<and> (\<forall>v. stored = Some v \<and> v \<noteq> 0 \<longrightarrow> keyDisplayDelay (updateConfig testing event stored s) = v)
       \<and> (keyDisplayDelay (updateConfig testing event stored s) \<le> 0 \<longleftrightarrow> (\<exists>v. stored = Some v \<and> v < 0))"
  using assms
  by (cases stored) (auto simp: updateConfig_def KEY_DISPLAY_DELAY_DEFAULT_def)

text \<open>The stored values \<open>0\<close>, none and \<open>250\<close>.\<close>

theorem configured_delay_witness:
  "keyDisplayDelay (updateConfig False None (Some 0) (module_init False)) = 500
   \<and> keyDisplayDelay (updateConfig True (Some (\<lambda>section. section = ''master-key'')) None (module_init True)) = 100
   \<and> keyDisplayDelay (updateConfig False None (Some 250) (module_init False)) = 250"
  using configured_delay [of None False "Some 0" "module_init False"]
    configured_delay [of "Some (\<lambda>section. section = ''master-key'')" True None "module_init True"]
    configured_delay [of None False "Some 250" "module_init False"]
  by (simp add: KEY_DISPLAY_DELAY_DEFAULT_def)

section \<open>The count\<close>

text \<open>
  Up to \<open>MAX_SAFE_INTEGER\<close> an integer is a number of the engine; \<open>2^53 + 1\<close> lies
  halfway between two of them and is rounded to the even one, \<open>2^53\<close>.
\<close>

lemma excess_small: "a < 2 ^ 53 \<Longrightarrow> excess_bits a = 0"
  by (simp add: excess_bits.simps)

lemma to_double_safe: "\<bar>x\<bar> \<le> MAX_SAFE_INTEGER \<Longrightarrow> to_double x = Finite x"
  by (auto simp: to_double_def round_magnitude_def excess_small Let_def MAX_SAFE_INTEGER_def)

lemma excess_bits_tie: "excess_bits 9007199254740993 = 1"
  by (simp add: excess_bits.simps [of 9007199254740993] excess_small)

lemma to_double_tie: "to_double 9007199254740993 = Finite 9007199254740992"
  by (simp add: to_double_def round_magnitude_def excess_bits_tie Let_def)

lemma toLowerCase_digit: "d < 10 \<Longrightarrow> toLowerCase e [48 + d] = [48 + d]"
  by (simp add: toLowerCase_def is_ascii_def ascii_lower_def)

lemma enterModalKeys_loop_append:
  "enterModalKeys_loop e key_map v (ks @ [k]) =
     (case enterModalKeys_loop e key_map v ks of
        Inl err \<Rightarrow> Inl err
      | Inr v' \<Rightarrow> enterModalKeys_round e key_map v' k)"
  by (induction ks arbitrary: v) (auto split: sum.splits)

lemma enterModalKeys_round_digit:
  "d < 10 \<Longrightarrow> enterModalKeys_round e key_map v (digit_key d) =
     Inr \<lparr>h_count = plus_int (times_10 (h_count v)) (int d), keySeqString = keySeqString v,
          checkCleared = True,
          actions = actions v @
            [PressKeys [case key_map [48 + d] of Some code \<Rightarrow> code | None \<Rightarrow> [48 + d]],
             AwaitLabel (str ''Keys Typed: '' @
               (if truthy (plus_int (times_10 (h_count v)) (int d))
                then number_toString e (plus_int (times_10 (h_count v)) (int d)) @ [215, 32]
                else []) @
               keySeqString v)]\<rparr>"
  by (simp add: enterModalKeys_round_def digit_key_def modalKeyToStringArray_def
      spec_with_key_def modalKeyCount_def modalKeyUpdateStatus_def toLowerCase_digit Let_def
      del: number_toString.simps)

lemma enterModalKeys_round_digit_count:
  "d < 10 \<Longrightarrow> \<exists>w. enterModalKeys_round e key_map v (digit_key d) = Inr w
      \<and> h_count w = plus_int (times_10 (h_count v)) (int d)"
  by (simp add: enterModalKeys_round_digit
      del: number_toString.simps times_10.simps plus_int.simps)

lemma safe_step:
  assumes "0 \<le> c" and "c * 10 + int d \<le> MAX_SAFE_INTEGER"
  shows "plus_int (times_10 (Finite c)) (int d) = Finite (c * 10 + int d)"
proof -
  from assms have "\<bar>c * 10\<bar> \<le> MAX_SAFE_INTEGER" "\<bar>c * 10 + int d\<bar> \<le> MAX_SAFE_INTEGER"
    by simp_all
  then show ?thesis by (simp add: to_double_safe)
qed

text \<open>
  The key-entry helper on digits whose value is a safe integer: its count is that value,
  and the label it awaits last is the one of that count with no keys.
\<close>

lemma enterModalKeys_digits:
  "list_all (\<lambda>d. d < 10) ds \<Longrightarrow> spelled ds \<le> MAX_SAFE_INTEGER \<Longrightarrow>
   \<exists>v. enterModalKeys_loop e key_map enterModalKeys_init (map digit_key ds) = Inr v
       \<and> h_count v = Finite (spelled ds) \<and> keySeqString v = []
       \<and> (ds \<noteq> [] \<longrightarrow> last (actions v) =
             AwaitLabel (str ''Keys Typed: '' @
               (if spelled ds \<noteq> 0 then number_toString e (Finite (spelled ds)) @ [215, 32]
                else [])))"
proof (induction ds rule: rev_induct)
  case Nil
  then show ?case by (simp add: enterModalKeys_init_def spelled_Nil)
next
  case (snoc d ds)
  from snoc.prems have d: "d < 10" and all: "list_all (\<lambda>d. d < 10) ds" by simp_all
  from snoc.prems(2) spelled_prefix_le [of ds d] have safe: "spelled ds \<le> MAX_SAFE_INTEGER"
    by simp
  from snoc.IH [OF all safe] obtain v where
    v: "enterModalKeys_loop e key_map enterModalKeys_init (map digit_key ds) = Inr v"
      "h_count v = Finite (spelled ds)" "keySeqString v = []"
    by blast
  have st: "plus_int (times_10 (Finite (spelled ds))) (int d) = Finite (spelled (ds @ [d]))"
    using safe_step [OF spelled_nonneg [of ds], of d] snoc.prems(2) by (simp add: spelled_snoc)
  from st have st': "plus_int (to_double (spelled ds * 10)) (int d) = Finite (spelled (ds @ [d]))"
    by simp
  show ?case
    using v d
    by (simp add: enterModalKeys_loop_append enterModalKeys_round_digit st'
        del: number_toString.simps)
qed

lemma count_digits_snoc:
  "count_digits z ks (ds @ [d]) =
     (case count_digits z ks ds of None \<Rightarrow> None | Some ks' \<Rightarrow> count_digit z ks' d)"
  by (induction ds arbitrary: ks) (auto split: option.splits)

lemma count_digits_spelled:
  "\<not> (z \<and> ds \<noteq> [] \<and> hd ds = 0) \<Longrightarrow>
   count_digits z (KeyState_empty m) ds
     = Some \<lparr>ks_prefix = [], ks_count = (if ds = [] then None else Some (spelled ds)),
             ks_mode = m\<rparr>"
proof (induction ds rule: rev_induct)
  case Nil
  then show ?case by (simp add: KeyState_empty_def)
next
  case (snoc d ds)
  show ?case
  proof (cases "ds = []")
    case True
    with snoc.prems show ?thesis
      by (auto simp: KeyState_empty_def count_digit_def get_or_def spelled_single)
  next
    case False
    with snoc.prems have "\<not> (z \<and> ds \<noteq> [] \<and> hd ds = 0)" by simp
    from snoc.IH [OF this] False show ?thesis
      by (simp add: count_digits_snoc count_digit_def get_or_def spelled_snoc)
  qed
qed

text \<open>
  C6 (as stated): the count is the base-10 integer that the digits spell, and it is the
  one the status prefix shows. The count is a number of the engine: on the sixteen digits
  of \<open>9007199254740993\<close>, which is \<open>2^53 + 1\<close>, the key-entry helper arrives at
  \<open>9007199254740992\<close>. And the count spelled by the digit \<open>0\<close> is not shown: the label
  awaited after it has no count in it.
\<close>

theorem count_beyond_safe_integers:
  "(\<exists>v. enterModalKeys_loop ascii_engine (\<lambda>k. None) enterModalKeys_init
          (map digit_key [9, 0, 0, 7, 1, 9, 9, 2, 5, 4, 7, 4, 0, 9, 9, 3]) = Inr v
        \<and> h_count v = Finite 9007199254740992)
   \<and> spelled [9, 0, 0, 7, 1, 9, 9, 2, 5, 4, 7, 4, 0, 9, 9, 3] = 9007199254740993
   \<and> (\<exists>v. enterModalKeys_loop ascii_engine (\<lambda>k. None) enterModalKeys_init
          (map digit_key [0]) = Inr v
        \<and> h_count v = Finite 0
        \<and> last (actions v) = AwaitLabel (str ''Keys Typed: ''))"
proof (intro conjI)
  let ?ds = "[9, 0, 0, 7, 1, 9, 9, 2, 5, 4, 7, 4, 0, 9, 9::nat]"
  have sp: "spelled ?ds = 900719925474099"
    by (simp add: spelled_def lessThan_Suc eval_nat_numeral)
  have all: "list_all (\<lambda>d. d < 10) ?ds" by simp
  have safe: "spelled ?ds \<le> MAX_SAFE_INTEGER" unfolding sp by (simp add: MAX_SAFE_INTEGER_def)
  from enterModalKeys_digits [OF all safe, of ascii_engine "\<lambda>k. None"] obtain v where
    v: "enterModalKeys_loop ascii_engine (\<lambda>k. None) enterModalKeys_init (map digit_key ?ds) = Inr v"
      "h_count v = Finite 900719925474099"
    unfolding sp by blast
  have st: "plus_int (times_10 (Finite 900719925474099)) 3 = Finite 9007199254740992"
    by (simp add: to_double_safe to_double_tie MAX_SAFE_INTEGER_def)
  have r: "enterModalKeys_loop ascii_engine (\<lambda>k. None) enterModalKeys_init
             (map digit_key ?ds @ [digit_key 3])
           = enterModalKeys_round ascii_engine (\<lambda>k. None) v (digit_key 3)"
    by (simp only: enterModalKeys_loop_append v(1) sum.case)
  from enterModalKeys_round_digit_count [of 3 ascii_engine "\<lambda>k. None" v] obtain w where
    w: "enterModalKeys_round ascii_engine (\<lambda>k. None) v (digit_key 3) = Inr w"
      "h_count w = plus_int (times_10 (h_count v)) (int 3)"
    by auto
  from w(2) have "h_count w = Finite 9007199254740992"
    by (simp add: v(2) st del: times_10.simps plus_int.simps)
  with r w(1) have "\<exists>v. enterModalKeys_loop ascii_engine (\<lambda>k. None) enterModalKeys_init
          (map digit_key ?ds @ [digit_key 3]) = Inr v
        \<and> h_count v = Finite 9007199254740992"
    by simp
  moreover have "map digit_key [9, 0, 0, 7, 1, 9, 9, 2, 5, 4, 7, 4, 0, 9, 9, 3]
      = map digit_key ?ds @ [digit_key 3]"
    by (simp only: list.map append_Cons append_Nil)
  ultimately show "\<exists>v. enterModalKeys_loop ascii_engine (\<lambda>k. None) enterModalKeys_init
          (map digit_key [9, 0, 0, 7, 1, 9, 9, 2, 5, 4, 7, 4, 0, 9, 9, 3]) = Inr v
        \<and> h_count v = Finite 9007199254740992"
    by (simp only:)
  have "spelled (?ds @ [3]) = 9007199254740993"
    unfolding spelled_snoc sp by simp
  then show "spelled [9, 0, 0, 7, 1, 9, 9, 2, 5, 4, 7, 4, 0, 9, 9, 3] = 9007199254740993"
    by (simp only: append_Cons append_Nil)
  have z: "list_all (\<lambda>d. d < 10) [0::nat]" "spelled [0] \<le> MAX_SAFE_INTEGER"
    by (simp_all add: spelled_single MAX_SAFE_INTEGER_def)
  from enterModalKeys_digits [OF z, of ascii_engine "\<lambda>k. None"] obtain u where
    "enterModalKeys_loop ascii_engine (\<lambda>k. None) enterModalKeys_init (map digit_key [0]) = Inr u"
    "h_count u = Finite (spelled [0])"
    "last (actions u) = AwaitLabel (str ''Keys Typed: '' @
       (if spelled [0] \<noteq> 0 then number_toString ascii_engine (Finite (spelled [0])) @ [215, 32]
        else []))"
    by blast
  then have "enterModalKeys_loop ascii_engine (\<lambda>k. None) enterModalKeys_init (map digit_key [0]) = Inr u
      \<and> h_count u = Finite 0 \<and> last (actions u) = AwaitLabel (str ''Keys Typed: '')"
    by (simp add: spelled_single del: number_toString.simps)
  then show "\<exists>v. enterModalKeys_loop ascii_engine (\<lambda>k. None) enterModalKeys_init
          (map digit_key [0]) = Inr v
        \<and> h_count v = Finite 0
        \<and> last (actions v) = AwaitLabel (str ''Keys Typed: '')"
    by blast
qed

text \<open>
  C6 (amended): for digits \<open>ds\<close> typed before a chord whose value does not exceed
  \<open>MAX_SAFE_INTEGER\<close>, the accumulated count is the base-10 integer they spell, and each
  further digit \<open>d\<close> within that range makes it ten times the previous count plus \<open>d\<close>;
  this is the count of the key-entry helper of the tests, which awaits the label of that
  count. When it is not zero, \<open>updateKeyStatus\<close> writes its numeral (the typed digits when
  the first is not zero), the multiplication sign and a space before the rendered prefix.
  In the key state of the spec, where a bare \<open>0\<close> is a digit only when the configuration
  does not bind it, the same count is the one in the invocation context and the one
  handed to the status bar.
\<close>

theorem count_is_base_10:
  assumes "list_all (\<lambda>d. d < 10) ds" and "spelled ds \<le> MAX_SAFE_INTEGER"
  shows "(\<exists>v. enterModalKeys_loop e key_map enterModalKeys_init (map digit_key ds) = Inr v
            \<and> h_count v = Finite (spelled ds)
            \<and> (ds \<noteq> [] \<longrightarrow> last (actions v) =
                 AwaitLabel (str ''Keys Typed: '' @
                   (if spelled ds \<noteq> 0
                    then number_toString e (Finite (spelled ds)) @ [215, 32] else []))))
       \<and> (spelled (ds @ [d]) \<le> MAX_SAFE_INTEGER \<longrightarrow>
            plus_int (times_10 (Finite (spelled ds))) (int d) = Finite (spelled (ds @ [d])))
       \<and> spelled (ds @ [d]) = 10 * spelled ds + int d
       \<and> (keyStatusBar s = Some bar \<and> 0 < keyDisplayDelay s \<and> spelled ds \<noteq> 0 \<longrightarrow>
            keyStatusBar (snd (snd (updateKeyStatus prettify e
                \<lparr>COUNT = Some (Finite (spelled ds)), PREFIX = p\<rparr> s)))
              = Some \<lparr>bar_text = number_toString e (Finite (spelled ds)) @ [215, 32] @
                                    prettify (get_or p []),
                      bar_label = str ''Keys Typed: '' @
                                    number_toString e (Finite (spelled ds)) @ [215, 32] @
                                    prettify (get_or p [])\<rparr>)
       \<and> (ds \<noteq> [] \<and> hd ds \<noteq> 0 \<longrightarrow>
            number_toString e (Finite (spelled ds)) = map (\<lambda>d. 48 + d) ds)
       \<and> (\<not> (zero_is_bound \<and> ds \<noteq> [] \<and> hd ds = 0) \<longrightarrow>
            (\<exists>ks. count_digits zero_is_bound (KeyState_empty m) ds = Some ks
               \<and> ks_count ks = (if ds = [] then None else Some (spelled ds))
               \<and> ctx_count (invocation_context ks) = ks_count ks
               \<and> COUNT (listener_values ks) =
                   (if ds = [] then None else Some (Finite (spelled ds)))))"
proof -
  note h = enterModalKeys_digits [OF assms, of e key_map]
  have h1: "\<exists>v. enterModalKeys_loop e key_map enterModalKeys_init (map digit_key ds) = Inr v
            \<and> h_count v = Finite (spelled ds)
            \<and> (ds \<noteq> [] \<longrightarrow> last (actions v) =
                 AwaitLabel (str ''Keys Typed: '' @
                   (if spelled ds \<noteq> 0
                    then number_toString e (Finite (spelled ds)) @ [215, 32] else [])))"
    using h by blast
  have h2: "spelled (ds @ [d]) \<le> MAX_SAFE_INTEGER \<longrightarrow>
            plus_int (times_10 (Finite (spelled ds))) (int d) = Finite (spelled (ds @ [d]))"
    using safe_step [OF spelled_nonneg [of ds], of d] by (simp add: spelled_snoc)
  have h3: "spelled (ds @ [d]) = 10 * spelled ds + int d"
    by (simp add: spelled_snoc)
  have h4: "keyStatusBar s = Some bar \<and> 0 < keyDisplayDelay s \<and> spelled ds \<noteq> 0 \<longrightarrow>
            keyStatusBar (snd (snd (updateKeyStatus prettify e
                \<lparr>COUNT = Some (Finite (spelled ds)), PREFIX = p\<rparr> s)))
              = Some \<lparr>bar_text = number_toString e (Finite (spelled ds)) @ [215, 32] @
                                    prettify (get_or p []),
                      bar_label = str ''Keys Typed: '' @
                                    number_toString e (Finite (spelled ds)) @ [215, 32] @
                                    prettify (get_or p [])\<rparr>"
    by (simp add: updateKeyStatus_def plannedUpdate_of_unfold get_or_def Let_def
        del: number_toString.simps)
  have h5: "ds \<noteq> [] \<and> hd ds \<noteq> 0 \<longrightarrow>
            number_toString e (Finite (spelled ds)) = map (\<lambda>d. 48 + d) ds"
    using number_toString_spelled [OF assms(1) _ _ assms(2), of e] by blast
  have h6: "\<not> (zero_is_bound \<and> ds \<noteq> [] \<and> hd ds = 0) \<longrightarrow>
            (\<exists>ks. count_digits zero_is_bound (KeyState_empty m) ds = Some ks
               \<and> ks_count ks = (if ds = [] then None else Some (spelled ds))
               \<and> ctx_count (invocation_context ks) = ks_count ks
               \<and> COUNT (listener_values ks) =
                   (if ds = [] then None else Some (Finite (spelled ds))))"
  proof
    assume z: "\<not> (zero_is_bound \<and> ds \<noteq> [] \<and> hd ds = 0)"
    have "\<bar>spelled ds\<bar> \<le> MAX_SAFE_INTEGER"
      using assms(2) spelled_nonneg [of ds] by simp
    then have "to_double (spelled ds) = Finite (spelled ds)" by (rule to_double_safe)
    then show "\<exists>ks. count_digits zero_is_bound (KeyState_empty m) ds = Some ks
               \<and> ks_count ks = (if ds = [] then None else Some (spelled ds))
               \<and> ctx_count (invocation_context ks) = ks_count ks
               \<and> COUNT (listener_values ks) =
                   (if ds = [] then None else Some (Finite (spelled ds)))"
      by (simp add: count_digits_spelled [OF z] invocation_context_def listener_values_def)
  qed
  from h1 h2 h3 h4 h5 h6 show ?thesis by blast
qed

text \<open>The digits 4 and 2, a further 7, and the prefix \<open>ctrl+x\<close>.\<close>

theorem count_is_base_10_witness:
  "list_all (\<lambda>d. d < 10) [4, 2::nat] \<and> spelled [4, 2] \<le> MAX_SAFE_INTEGER
   \<and> spelled [4, 2] = 42
   \<and> (\<exists>v. enterModalKeys_loop ascii_engine (\<lambda>k. None) enterModalKeys_init
             (map digit_key [4, 2]) = Inr v
          \<and> h_count v = Finite 42
          \<and> last (actions v) = AwaitLabel (str ''Keys Typed: 42'' @ [215, 32]))
   \<and> plus_int (times_10 (Finite 42)) 7 = Finite 427
   \<and> keyStatusBar (snd (snd (updateKeyStatus (utils_prettifyPrefix ascii_engine) ascii_engine
        \<lparr>COUNT = Some (Finite 42), PREFIX = Some (str ''ctrl+x'')\<rparr> (activate False None))))
     = Some \<lparr>bar_text = str ''42'' @ [215, 32] @ str ''^X'',
             bar_label = str ''Keys Typed: 42'' @ [215, 32] @ str ''^X''\<rparr>
   \<and> (\<exists>ks. count_digits True (KeyState_empty (str ''normal'')) [4, 2] = Some ks
          \<and> ctx_count (invocation_context ks) = Some 42
          \<and> COUNT (listener_values ks) = Some (Finite 42))"
proof -
  have sp: "spelled [4, 2] = 42"
    using spelled_snoc [of "[4]" 2] by (simp add: spelled_single)
  have sp3: "spelled ([4, 2] @ [7]) = 427"
    using spelled_snoc [of "[4, 2]" 7] by (simp add: sp)
  have a: "list_all (\<lambda>d. d < 10) [4, 2::nat]" "spelled [4, 2] \<le> MAX_SAFE_INTEGER"
    by (simp_all add: sp MAX_SAFE_INTEGER_def)
  have b: "keyStatusBar (activate False None)
     = Some \<lparr>bar_text = [], bar_label = str ''No Keys Typed''\<rparr>"
    "0 < keyDisplayDelay (activate False None)"
    by (simp_all add: activate_def updateConfig_def module_init_def KEY_DISPLAY_DELAY_DEFAULT_def)
  have g: "utils_prettifyPrefix ascii_engine (get_or (Some (str ''ctrl+x'')) []) = str ''^X''"
    by code_simp
  note th = count_is_base_10 [OF a, of ascii_engine "\<lambda>k. None" 7 "activate False None"
      "\<lparr>bar_text = [], bar_label = str ''No Keys Typed''\<rparr>"
      "utils_prettifyPrefix ascii_engine" "Some (str ''ctrl+x'')" True "str ''normal''"]
  have n: "number_toString ascii_engine (Finite (spelled [4, 2])) = str ''42''"
  proof -
    from th have "[4, 2::nat] \<noteq> [] \<and> hd [4, 2::nat] \<noteq> 0 \<longrightarrow>
        number_toString ascii_engine (Finite (spelled [4, 2])) = map (\<lambda>d. 48 + d) [4, 2]"
      by blast
    then show ?thesis by (simp add: str_def del: number_toString.simps)
  qed
  from th obtain v where
    v: "enterModalKeys_loop ascii_engine (\<lambda>k. None) enterModalKeys_init
          (map digit_key [4, 2]) = Inr v"
      "h_count v = Finite (spelled [4, 2])"
      "[4, 2::nat] \<noteq> [] \<longrightarrow> last (actions v) =
         AwaitLabel (str ''Keys Typed: '' @
           (if spelled [4, 2] \<noteq> 0
            then number_toString ascii_engine (Finite (spelled [4, 2])) @ [215, 32] else []))"
    by blast
  from v(3) have l: "last (actions v) = AwaitLabel (str ''Keys Typed: 42'' @ [215, 32])"
    unfolding n by (simp add: sp str_def)
  from v(1) v(2) l have c1: "\<exists>v. enterModalKeys_loop ascii_engine (\<lambda>k. None)
       enterModalKeys_init (map digit_key [4, 2]) = Inr v
          \<and> h_count v = Finite 42
          \<and> last (actions v) = AwaitLabel (str ''Keys Typed: 42'' @ [215, 32])"
    unfolding sp by blast
  from th have "spelled ([4, 2] @ [7]) \<le> MAX_SAFE_INTEGER \<longrightarrow>
      plus_int (times_10 (Finite (spelled [4, 2]))) (int 7) = Finite (spelled ([4, 2] @ [7]))"
    by blast
  then have c2: "plus_int (times_10 (Finite 42)) 7 = Finite 427"
    unfolding sp sp3 by (simp add: MAX_SAFE_INTEGER_def del: times_10.simps plus_int.simps)
  from th have "keyStatusBar (activate False None)
        = Some \<lparr>bar_text = [], bar_label = str ''No Keys Typed''\<rparr>
      \<and> 0 < keyDisplayDelay (activate False None) \<and> spelled [4, 2] \<noteq> 0 \<longrightarrow>
      keyStatusBar (snd (snd (updateKeyStatus (utils_prettifyPrefix ascii_engine) ascii_engine
          \<lparr>COUNT = Some (Finite (spelled [4, 2])), PREFIX = Some (str ''ctrl+x'')\<rparr>
          (activate False None))))
      = Some \<lparr>bar_text = number_toString ascii_engine (Finite (spelled [4, 2])) @ [215, 32] @
                 utils_prettifyPrefix ascii_engine (get_or (Some (str ''ctrl+x'')) []),
              bar_label = str ''Keys Typed: '' @
                 number_toString ascii_engine (Finite (spelled [4, 2])) @ [215, 32] @
                 utils_prettifyPrefix ascii_engine (get_or (Some (str ''ctrl+x'')) [])\<rparr>"
    by blast
  with b have c3: "keyStatusBar (snd (snd (updateKeyStatus (utils_prettifyPrefix ascii_engine)
        ascii_engine \<lparr>COUNT = Some (Finite 42), PREFIX = Some (str ''ctrl+x'')\<rparr>
        (activate False None))))
     = Some \<lparr>bar_text = str ''42'' @ [215, 32] @ str ''^X'',
             bar_label = str ''Keys Typed: 42'' @ [215, 32] @ str ''^X''\<rparr>"
    unfolding n g by (simp add: sp str_def)
  from th have "\<not> (True \<and> [4, 2::nat] \<noteq> [] \<and> hd [4, 2::nat] = 0) \<longrightarrow>
      (\<exists>ks. count_digits True (KeyState_empty (str ''normal'')) [4, 2] = Some ks
         \<and> ks_count ks = (if [4, 2::nat] = [] then None else Some (spelled [4, 2]))
         \<and> ctx_count (invocation_context ks) = ks_count ks
         \<and> COUNT (listener_values ks) =
             (if [4, 2::nat] = [] then None else Some (Finite (spelled [4, 2]))))"
    by blast
  then have c4: "\<exists>ks. count_digits True (KeyState_empty (str ''normal'')) [4, 2] = Some ks
          \<and> ctx_count (invocation_context ks) = Some 42
          \<and> COUNT (listener_values ks) = Some (Finite 42)"
    unfolding sp by auto
  from a sp c1 c2 c3 c4 show ?thesis by blast
qed

section \<open>Properties of the import\<close>

text \<open>
  C3: when a file was chosen and parsing it fails, \<open>importBindings\<close> reports the first three
  issues (all of them if there are fewer), each by its own call of \<open>showParseError\<close>, does
  nothing else (no keybindings inserted, no configuration updated) and returns normally.
\<close>

theorem importBindings_parse_failure:
  assumes "queryBindingFile dialog = Some file"
    and "parseBindingFile file = ParseFailure issues"
  shows "importBindings dialog parseBindingFile processBindings validModes
         = (map (ShowParseError (str ''Parsing of bindings failed: '')) (take 3 issues), Returned)
       \<and> length (fst (importBindings dialog parseBindingFile processBindings validModes))
         = min 3 (length issues)
       \<and> filter (\<lambda>e. \<not> is_parse_report e)
            (fst (importBindings dialog parseBindingFile processBindings validModes)) = []"
  using assms by (simp add: importBindings_def filter_empty_conv)

theorem importBindings_parse_failure_witness:
  "queryBindingFile (Some [7::nat]) = Some 7
   \<and> (\<lambda>f::nat. (ParseFailure [10, 20, 30, 40::nat] :: (unit, nat) SafeParseReturn)) 7
     = ParseFailure [10, 20, 30, 40]
   \<and> importBindings (Some [7::nat])
        (\<lambda>f. (ParseFailure [10, 20, 30, 40::nat] :: (unit, nat) SafeParseReturn))
        (\<lambda>d. ()) (\<lambda>d. (None :: unit option))
     = ([ShowParseError (str ''Parsing of bindings failed: '') 10,
         ShowParseError (str ''Parsing of bindings failed: '') 20,
         ShowParseError (str ''Parsing of bindings failed: '') 30], Returned)"
  using importBindings_parse_failure
    [of "Some [7::nat]" 7
        "\<lambda>f::nat. (ParseFailure [10, 20, 30, 40::nat] :: (unit, nat) SafeParseReturn)"
        "[10, 20, 30, 40]" "\<lambda>d. ()" "\<lambda>d. (None :: unit option)"]
  by (simp add: queryBindingFile_def)

section \<open>Properties of the keybinding generation\<close>

lemma regexp_exec_line_start: "regexp_exec line_start_re s 0 = Some (0, 0)"
  by (simp add: regexp_exec_def upt_conv_Cons line_start_re_def atLineStart_def del: upt_Suc)

lemma replaceAll_loop_line_start_aux:
  assumes "replaceAll_loop re s replacement result offset li = Some y"
  shows "\<not> (re = line_start_re \<and> li = 0)"
  using assms
proof (rule replaceAll_loop.raw_induct
    [where P = "\<lambda>re s replacement result offset li y. \<not> (re = line_start_re \<and> li = 0)", rotated])
  fix loop :: "matcher \<Rightarrow> jsstring \<Rightarrow> jsstring \<Rightarrow> jsstring \<Rightarrow> nat \<Rightarrow> nat \<Rightarrow> jsstring option"
  fix re s replacement result offset li y
  assume IH: "\<And>re s replacement result offset li y.
      loop re s replacement result offset li = Some y \<Longrightarrow> \<not> (re = line_start_re \<and> li = 0)"
  assume eq: "(case regexp_exec re s li of
        None \<Rightarrow> Some (result @ slice s (int offset) (- 1))
      | Some (index, n) \<Rightarrow>
          loop re s replacement
            (result @ slice s (int offset) (int index) @ replacement) (offset + n) (index + n))
      = Some y"
  show "\<not> (re = line_start_re \<and> li = 0)"
  proof
    assume a: "re = line_start_re \<and> li = 0"
    with eq have "loop line_start_re s replacement
        (result @ slice s (int offset) (int 0) @ replacement) (offset + 0) (0 + 0) = Some y"
      by (simp add: regexp_exec_line_start)
    from IH [OF this] show False by simp
  qed
qed

lemma replaceAll_loop_line_start:
  "replaceAll_loop line_start_re s replacement result offset 0 = None"
  using replaceAll_loop_line_start_aux [of line_start_re s replacement result offset 0]
  by (cases "replaceAll_loop line_start_re s replacement result offset 0") auto

lemma replaceAll_line_start:
  "replaceAll s \<lparr>flags = ''gm'', pattern = line_start_re, lastIndex = 0\<rparr> replacement = None"
  by (simp add: replaceAll_def replaceAll_loop_line_start)

lemma replaceAll_no_match:
  assumes "CHR ''g'' \<in> set (flags regex)"
    and "regexp_exec (pattern regex) s (lastIndex regex) = None"
  shows "replaceAll s regex replacement = Some (Inr (butlast s))"
proof -
  have "slice s 0 (- 1) = butlast s"
    by (simp add: slice_def slice_index_def Let_def butlast_conv_take nat_diff_distrib' max_def)
  with assms show ?thesis
    by (simp add: replaceAll_def replaceAll_loop.simps)
qed

text \<open>
  C9: \<open>replaceAll\<close> should keep every character outside the matches, the last one included.
  It ends with \<open>str.slice(offset, -1)\<close>, which leaves the last character out, and it
  advances \<open>offset\<close> by the length of the match only: \<open>ab\<close> without any match of \<open>x\<close> becomes
  \<open>a\<close>, \<open>abc\<close> with \<open>b\<close> replaced by \<open>X\<close> becomes \<open>aXb\<close>, and with two matches the text between
  them is repeated from the wrong place. On the pattern of \<open>formatBindings\<close> that matches
  the empty string at the start of a line the loop never ends.
\<close>

theorem replaceAll_drops_last_character:
  "replaceAll (str ''ab'') \<lparr>flags = ''gi'', pattern = token_re (str ''x'') False, lastIndex = 0\<rparr>
      (str ''y'') = Some (Inr (str ''a''))
   \<and> replaceAll (str ''abc'') \<lparr>flags = ''gi'', pattern = token_re (str ''b'') False, lastIndex = 0\<rparr>
      (str ''X'') = Some (Inr (str ''aXb''))
   \<and> replaceAll (str ''abcabc'') \<lparr>flags = ''gi'', pattern = token_re (str ''b'') False, lastIndex = 0\<rparr>
      (str ''X'') = Some (Inr (str ''aXbcaXcab''))
   \<and> replaceAll s \<lparr>flags = ''gm'', pattern = line_start_re, lastIndex = 0\<rparr> replacement = None"
proof (intro conjI)
  show "replaceAll (str ''ab'') \<lparr>flags = ''gi'', pattern = token_re (str ''x'') False, lastIndex = 0\<rparr>
      (str ''y'') = Some (Inr (str ''a''))"
    by code_simp
  show "replaceAll (str ''abc'') \<lparr>flags = ''gi'', pattern = token_re (str ''b'') False, lastIndex = 0\<rparr>
      (str ''X'') = Some (Inr (str ''aXb''))"
    by code_simp
  show "replaceAll (str ''abcabc'') \<lparr>flags = ''gi'', pattern = token_re (str ''b'') False, lastIndex = 0\<rparr>
      (str ''X'') = Some (Inr (str ''aXbcaXcab''))"
    by code_simp
  show "replaceAll s \<lparr>flags = ''gm'', pattern = line_start_re, lastIndex = 0\<rparr> replacement = None"
    by (rule replaceAll_line_start)
qed

lemma replaceAll_gm_not_thrown:
  "replaceAll s \<lparr>flags = ''gm'', pattern = re, lastIndex = 0\<rparr> replacement \<noteq> Some (Inl e)"
  by (auto simp: replaceAll_def)

lemma formatItems_never_returns: "formatItems (item # items) json = None"
  using replaceAll_gm_not_thrown [of "item_comment item" indent_re "str ''    // ''"]
  by (auto simp: replaceAll_line_start split: option.splits sum.splits)

lemma formatBindings_never_returns: "formatBindings file (item # items) = None"
  unfolding formatBindings_def formatItems_never_returns by simp

lemma formatBindings_empty: "\<exists>b. formatBindings file [] = Some (Inr b)"
  by (simp add: formatBindings_def)

text \<open>
  C10: with the opening bracket found and exactly one of the two markers present the
  function should report an error. \<open>bindingsToInsert\<close> is computed before the markers are
  looked at, and for a configuration with at least one binding \<open>formatBindings\<close> never
  returns: the function has opened the keybindings file and then neither reports an error
  nor edits the document.
\<close>

theorem one_marker_no_error_report:
  "insertKeybindingsIntoConfig file (item # items) (Some marked_editor)
     = ([ExecuteCommand (str ''workbench.action.openGlobalKeybindingsFile'')], NeverReturns)
   \<and> findText marked_editor (str ''['') \<noteq> None
   \<and> findText marked_editor (str ''AUTOMATED BINDINGS START'') \<noteq> None
   \<and> findText marked_editor (str ''AUTOMATED BINDINGS END'') = None"
proof (intro conjI)
  have neq: "str ''AUTOMATED BINDINGS START'' \<noteq> str ''[''" "str ''AUTOMATED BINDINGS END'' \<noteq> str ''[''"
    "str ''AUTOMATED BINDINGS END'' \<noteq> str ''AUTOMATED BINDINGS START''"
    by (simp_all add: str_def)
  show b: "findText marked_editor (str ''['') \<noteq> None"
    by (simp add: findText_def marked_editor_def)
  show "findText marked_editor (str ''AUTOMATED BINDINGS START'') \<noteq> None"
    by (simp add: findText_def marked_editor_def neq)
  show "findText marked_editor (str ''AUTOMATED BINDINGS END'') = None"
    by (simp add: findText_def marked_editor_def neq)
  from b show "insertKeybindingsIntoConfig file (item # items) (Some marked_editor)
     = ([ExecuteCommand (str ''workbench.action.openGlobalKeybindingsFile'')], NeverReturns)"
    by (auto simp: insertKeybindingsIntoConfig_def Let_def formatBindings_never_returns
        split: option.splits)
qed

text \<open>When \<open>formatBindings\<close> returns (as it does for the empty configuration), the document
  is edited only with the bracket found and both or neither of the markers, and otherwise
  an error is reported.\<close>

lemma insertKeybindingsIntoConfig_when_formatted:
  assumes "formatBindings file config = Some (Inr b)"
  shows "(filter is_edit (fst (insertKeybindingsIntoConfig file config (Some ed))) \<noteq> [] \<longrightarrow>
            findText ed (str ''['') \<noteq> None
            \<and> ((findText ed (str ''AUTOMATED BINDINGS START'') = None)
                 = (findText ed (str ''AUTOMATED BINDINGS END'') = None)))
       \<and> (findText ed (str ''['') = None
           \<or> (findText ed (str ''AUTOMATED BINDINGS START'') = None)
                \<noteq> (findText ed (str ''AUTOMATED BINDINGS END'') = None) \<longrightarrow>
            filter is_edit (fst (insertKeybindingsIntoConfig file config (Some ed))) = []
            \<and> filter is_error_report (fst (insertKeybindingsIntoConfig file config (Some ed))) \<noteq> []
            \<and> snd (insertKeybindingsIntoConfig file config (Some ed)) = Returned)"
  using assms
  by (auto simp: insertKeybindingsIntoConfig_def Let_def split: option.splits sum.splits)

end
